theory Spec2Isabelle
  imports Complex_Main
begin

section \<open>PyFiberAmp: initial guess construction and the active fibre\<close>

text \<open>
  A shallow embedding of \<^verbatim>\<open>fiberamp/initial_guess_maker.py\<close> and of the parts of
  \<^verbatim>\<open>fiberamp/fibers/active_fiber.py\<close> that compute mode field diameters, effective
  areas and finite-bandwidth gain and absorption.

  Conventions of the embedding:
  \<^item> a Python float is a \<^typ>\<open>real\<close>: arithmetic is exact, there is no rounding, no
    \<^verbatim>\<open>inf\<close> and no \<^verbatim>\<open>nan\<close>. Where numpy would produce \<^verbatim>\<open>inf\<close> or
    \<^verbatim>\<open>nan\<close> (a division by zero, the logarithm of a non-positive number) the
    theorems carry the hypothesis that excludes the case;
  \<^item> a one-dimensional numpy array is a list of reals, a two-dimensional array is the
    list of its rows;
  \<^item> a raised exception is the \<open>Inl\<close> branch of a sum, a returned value the \<open>Inr\<close>
    branch;
  \<^item> a slice of the slice map is a pair \<open>(start, stop)\<close> of non-negative indices with
    step one, as the channel registry produces them.
\<close>

subsection \<open>Exceptions and sequencing\<close>

datatype error =
    RuntimeError string
  | NotImplementedError
  | TypeError
  | IndexError
  | ValueError

definition bind_result :: "error + 'a \<Rightarrow> ('a \<Rightarrow> error + 'b) \<Rightarrow> error + 'b" where
  "bind_result r f = (case r of Inl e \<Rightarrow> Inl e | Inr v \<Rightarrow> f v)"

subsection \<open>Arrays and slices\<close>

type_synonym vec = "real list"
type_synonym array2d = "real list list"
type_synonym slice = "nat \<times> nat"

text \<open>\<^verbatim>\<open>xs[start:stop]\<close>: indices beyond the end are clipped, an empty range is empty.\<close>

definition get_slice :: "slice \<Rightarrow> 'a list \<Rightarrow> 'a list" where
  "get_slice s xs = take (snd s - fst s) (drop (fst s) xs)"

text \<open>\<^verbatim>\<open>np.zeros((n, m))\<close>.\<close>

definition np_zeros :: "nat \<times> nat \<Rightarrow> array2d" where
  "np_zeros shape = replicate (fst shape) (replicate (snd shape) 0)"

text \<open>
  \<^verbatim>\<open>guess[start:stop] = rows\<close> on an array with \<open>ncols\<close> columns. numpy raises
  \<^verbatim>\<open>ValueError\<close> when the shape of \<open>rows\<close> cannot be broadcast to the shape of the
  target. The callers below only ever assign rows of the target's own shape, so the one
  broadcast numpy would accept beyond equal shapes (a single row or a single column
  repeated) is not modelled: any shape other than the target's is the error.
\<close>

definition set_slice :: "slice \<Rightarrow> array2d \<Rightarrow> nat \<Rightarrow> array2d \<Rightarrow> error + array2d" where
  "set_slice s rows ncols guess =
     (let k = length (get_slice s guess) in
      if length rows = k \<and> list_all (\<lambda>r. length r = ncols) rows
      then Inr (take (fst s) guess @ rows @ drop (fst s + k) guess)
      else Inl ValueError)"

text \<open>\<^verbatim>\<open>np.full_like(a, v)\<close>.\<close>

definition np_full_like :: "vec \<Rightarrow> real \<Rightarrow> vec" where
  "np_full_like a v = map (\<lambda>_. v) a"

subsection \<open>The helper \<^verbatim>\<open>linspace_2d\<close>\<close>

text \<open>
  Modelled from the spec: \<^verbatim>\<open>linspace_2d\<close> of \<^verbatim>\<open>helper_funcs.py\<close>, which is not among
  the source files. The spec describes the \<^verbatim>\<open>'linear'\<close> shape as linear interpolation
  from the start vector to the end vector over the grid, the first column being the start
  vector and the last column the end vector. Row \<open>i\<close> has \<open>n\<close> entries, entry \<open>j\<close> being
  \<open>start\<^sub>i + j * (end\<^sub>i - start\<^sub>i) / (n - 1)\<close>. For \<open>n = 1\<close> the quotient is a division by
  zero (\<^verbatim>\<open>nan\<close> in numpy); the theorems below assume a grid of at least two points.
  Every caller passes a start and an end vector of one length; numpy's broadcasting of
  vectors of different lengths is not modelled.
\<close>

definition linspace_row :: "real \<Rightarrow> real \<Rightarrow> nat \<Rightarrow> vec" where
  "linspace_row s e n = map (\<lambda>j. s + real j * (e - s) / (real n - 1)) [0..<n]"

definition linspace_2d :: "vec \<Rightarrow> vec \<Rightarrow> nat \<Rightarrow> array2d" where
  "linspace_2d start_arr end_arr n = map (\<lambda>(s, e). linspace_row s e n) (zip start_arr end_arr)"

subsection \<open>\<^verbatim>\<open>InitialGuessMaker\<close>\<close>

text \<open>
  The parameter dictionary, with the four keys of \<^verbatim>\<open>DEFAULT_GUESS_PARAMS\<close>, and the
  slice map, with the seven category keys read by the constructor.
\<close>

record guess_params =
  signal_conversion_guess :: real
  signal_gain_shape :: string
  pump_absorption_factor :: real
  ase_output_power :: real

definition DEFAULT_GUESS_PARAMS :: guess_params where
  "DEFAULT_GUESS_PARAMS =
     \<lparr> signal_conversion_guess = 5 / 10,
       signal_gain_shape = ''linear'',
       pump_absorption_factor = 1 / 100,
       ase_output_power = 1 / 1000 \<rparr>"

record slice_map =
  signal_slice :: slice
  co_pump_slice :: slice
  counter_pump_slice :: slice
  forward_ase_slice :: slice
  backward_ase_slice :: slice
  forward_raman_slice :: slice
  backward_raman_slice :: slice

record InitialGuessMaker =
  input_powers :: vec
  signal_powers :: vec
  co_pump_powers :: vec
  counter_pump_powers :: vec
  forward_ase_powers :: vec
  backward_ase_powers :: vec
  forward_raman_powers :: vec
  backward_raman_powers :: vec
  slices :: slice_map
  z :: vec
  params :: guess_params

text \<open>The constructor \<^verbatim>\<open>__init__(self, input_powers, slices, z, params)\<close>.\<close>

definition init :: "vec \<Rightarrow> slice_map \<Rightarrow> vec \<Rightarrow> guess_params \<Rightarrow> InitialGuessMaker" where
  "init ip sl zg p =
     \<lparr> input_powers = ip,
       signal_powers = get_slice (signal_slice sl) ip,
       co_pump_powers = get_slice (co_pump_slice sl) ip,
       counter_pump_powers = get_slice (counter_pump_slice sl) ip,
       forward_ase_powers = get_slice (forward_ase_slice sl) ip,
       backward_ase_powers = get_slice (backward_ase_slice sl) ip,
       forward_raman_powers = get_slice (forward_raman_slice sl) ip,
       backward_raman_powers = get_slice (backward_raman_slice sl) ip,
       slices = sl,
       z = zg,
       params = p \<rparr>"

definition guess_shape :: "InitialGuessMaker \<Rightarrow> nat \<times> nat" where
  "guess_shape self = (length (input_powers self), length (z self))"

definition linear_guess :: "InitialGuessMaker \<Rightarrow> vec \<Rightarrow> vec \<Rightarrow> array2d" where
  "linear_guess self start_arr end_arr = linspace_2d start_arr end_arr (length (z self))"

text \<open>
  \<^verbatim>\<open>exponential_guess\<close>: the column vectors \<^verbatim>\<open>start[:, np.newaxis]\<close> and
  \<^verbatim>\<open>end[:, np.newaxis]\<close> broadcast against the grid, one row per channel.
  \<^verbatim>\<open>self.z[-1]\<close> raises \<^verbatim>\<open>IndexError\<close> on an empty grid. The start and the end
  vector have one length in the only call, that of \<^verbatim>\<open>make_signal_guess\<close>. The entries
  of a row mean what numpy computes when start and end are positive and the last grid point
  is not zero; elsewhere numpy yields \<^verbatim>\<open>inf\<close> or \<^verbatim>\<open>nan\<close> and the model some real.
\<close>

definition exponential_row :: "vec \<Rightarrow> real \<Rightarrow> real \<Rightarrow> vec" where
  "exponential_row zg s e = (let gain = ln (e / s) / last zg in map (\<lambda>zj. s * exp (gain * zj)) zg)"

definition exponential_guess :: "InitialGuessMaker \<Rightarrow> vec \<Rightarrow> vec \<Rightarrow> error + array2d" where
  "exponential_guess self start_arr end_arr =
     (if z self = [] then Inl IndexError
      else Inr (map (\<lambda>(s, e). exponential_row (z self) s e) (zip start_arr end_arr)))"

definition make_signal_guess :: "InitialGuessMaker \<Rightarrow> error + array2d" where
  "make_signal_guess self =
     (let total_pump_power = sum_list (co_pump_powers self) + sum_list (counter_pump_powers self);
          signal_start = signal_powers self;
          signal_end = map (\<lambda>s. signal_conversion_guess (params self) * total_pump_power + s) signal_start;
          shape = signal_gain_shape (params self)
      in if shape = ''linear'' then Inr (linear_guess self signal_start signal_end)
         else if shape = ''exponential'' then exponential_guess self signal_start signal_end
         else Inl (RuntimeError ''Unrecognized signal gain shape parameter.''))"

definition make_co_pump_guess :: "InitialGuessMaker \<Rightarrow> array2d" where
  "make_co_pump_guess self =
     (let co_pump_start = co_pump_powers self;
          co_pump_end = map (\<lambda>p. pump_absorption_factor (params self) * p) co_pump_start
      in linear_guess self co_pump_start co_pump_end)"

definition make_counter_pump_guess :: "InitialGuessMaker \<Rightarrow> array2d" where
  "make_counter_pump_guess self =
     (let counter_pump_start = map (\<lambda>p. pump_absorption_factor (params self) * p) (counter_pump_powers self);
          counter_pump_end = counter_pump_powers self
      in linear_guess self counter_pump_start counter_pump_end)"

definition make_forward_ase_guess :: "InitialGuessMaker \<Rightarrow> array2d" where
  "make_forward_ase_guess self =
     (let forward_ase_start = forward_ase_powers self;
          forward_ase_end = np_full_like forward_ase_start (ase_output_power (params self))
      in linear_guess self forward_ase_start forward_ase_end)"

definition make_backward_ase_guess :: "InitialGuessMaker \<Rightarrow> array2d" where
  "make_backward_ase_guess self =
     (let backward_ase_end = backward_ase_powers self;
          backward_ase_start = np_full_like backward_ase_end (ase_output_power (params self))
      in linear_guess self backward_ase_start backward_ase_end)"

definition make_forward_raman_guess :: "InitialGuessMaker \<Rightarrow> array2d" where
  "make_forward_raman_guess self =
     (let forward_raman_start = forward_raman_powers self;
          forward_raman_end = map (\<lambda>p. p * 2) (forward_raman_powers self)
      in linear_guess self forward_raman_start forward_raman_end)"

definition make_backward_raman_guess :: "InitialGuessMaker \<Rightarrow> array2d" where
  "make_backward_raman_guess self =
     (let backward_raman_start = backward_raman_powers self;
          backward_raman_end = backward_raman_powers self
      in linear_guess self backward_raman_start backward_raman_end)"

text \<open>
  \<^verbatim>\<open>make_guess\<close>: each right-hand side is evaluated before its assignment, in the
  order of the source, and the first exception ends the call.
\<close>

definition make_guess :: "InitialGuessMaker \<Rightarrow> error + array2d" where
  "make_guess self =
     (let m = snd (guess_shape self); sl = slices self; guess = np_zeros (guess_shape self) in
      bind_result (make_signal_guess self) (\<lambda>sg.
      bind_result (set_slice (signal_slice sl) sg m guess) (\<lambda>g1.
      bind_result (set_slice (co_pump_slice sl) (make_co_pump_guess self) m g1) (\<lambda>g2.
      bind_result (set_slice (counter_pump_slice sl) (make_counter_pump_guess self) m g2) (\<lambda>g3.
      bind_result (set_slice (forward_ase_slice sl) (make_forward_ase_guess self) m g3) (\<lambda>g4.
      bind_result (set_slice (backward_ase_slice sl) (make_backward_ase_guess self) m g4) (\<lambda>g5.
      bind_result (set_slice (forward_raman_slice sl) (make_forward_raman_guess self) m g5) (\<lambda>g6.
      set_slice (backward_raman_slice sl) (make_backward_raman_guess self) m g6))))))))"

subsection \<open>\<^verbatim>\<open>ActiveFiber\<close>\<close>

text \<open>
  The attributes of an \<^verbatim>\<open>ActiveFiber\<close> that the methods below read. The two
  interpolants are the closures built by \<^verbatim>\<open>make_interpolate\<close>; \<open>overlap\<close> is
  \<open>None\<close> under automatic overlap and the constant otherwise.
\<close>

record ActiveFiber =
  absorption_cs_interp :: "real \<Rightarrow> real"
  gain_cs_interp :: "real \<Rightarrow> real"
  fiber_length :: real
  core_r :: real
  tau :: real
  ion_number_density :: real
  background_loss :: real
  core_na :: real
  overlap :: "real option"
  effective_area_type :: string

text \<open>
  The functions of \<^verbatim>\<open>helper_funcs.py\<close> called by these methods are not among the
  source files; they are parameters of the model.
\<close>

record helper_funcs =
  freq_to_wl :: "real \<Rightarrow> real"
  fundamental_mode_mfd_petermann_2 :: "real \<Rightarrow> real \<Rightarrow> real \<Rightarrow> real"
  effective_area_from_mfd :: "real \<Rightarrow> real \<Rightarrow> real \<Rightarrow> real"
  overlap_integral :: "real \<Rightarrow> real \<Rightarrow> real"

definition overlap_is_constant :: "ActiveFiber \<Rightarrow> bool" where
  "overlap_is_constant self = (overlap self \<noteq> None)"

text \<open>
  \<^verbatim>\<open>make_single_overlap\<close> has no \<^verbatim>\<open>else\<close> branch: under automatic overlap with a
  mode field radius that is not positive it returns Python's \<^verbatim>\<open>None\<close>.
\<close>

definition make_single_overlap :: "helper_funcs \<Rightarrow> ActiveFiber \<Rightarrow> real \<Rightarrow> real option" where
  "make_single_overlap h self mode_field_radius =
     (if overlap_is_constant self then overlap self
      else if mode_field_radius > 0 then Some (overlap_integral h (core_r self) mode_field_radius)
      else None)"

text \<open>A product with \<^verbatim>\<open>None\<close> raises \<^verbatim>\<open>TypeError\<close>.\<close>

definition get_channel_gain :: "helper_funcs \<Rightarrow> ActiveFiber \<Rightarrow> real \<Rightarrow> real \<Rightarrow> error + real" where
  "get_channel_gain h self freq mode_field_radius =
     (case make_single_overlap h self mode_field_radius of
        None \<Rightarrow> Inl TypeError
      | Some ov \<Rightarrow> Inr (gain_cs_interp self freq * ov * ion_number_density self))"

definition get_channel_absorption :: "helper_funcs \<Rightarrow> ActiveFiber \<Rightarrow> real \<Rightarrow> real \<Rightarrow> error + real" where
  "get_channel_absorption h self freq mode_field_radius =
     (case make_single_overlap h self mode_field_radius of
        None \<Rightarrow> Inl TypeError
      | Some ov \<Rightarrow> Inr (absorption_cs_interp self freq * ov * ion_number_density self))"

definition get_mfd :: "helper_funcs \<Rightarrow> ActiveFiber \<Rightarrow> real \<Rightarrow> real \<Rightarrow> real" where
  "get_mfd h self freq preset_mfd =
     (if preset_mfd > 0 then preset_mfd
      else fundamental_mode_mfd_petermann_2 h (freq_to_wl h freq) (core_r self) (core_na self))"

definition core_area :: "ActiveFiber \<Rightarrow> real" where
  "core_area self = (core_r self)\<^sup>2 * pi"

text \<open>The frequency is a scalar here, so \<^verbatim>\<open>np.ones_like(freq)\<close> is \<open>1\<close>.\<close>

definition effective_area_from_core_area :: "ActiveFiber \<Rightarrow> real \<Rightarrow> real" where
  "effective_area_from_core_area self freq = core_area self * 1"

definition effective_area_from_gaussian_approximation :: "helper_funcs \<Rightarrow> ActiveFiber \<Rightarrow> real \<Rightarrow> real" where
  "effective_area_from_gaussian_approximation h self freq =
     effective_area_from_mfd h (freq_to_wl h freq) (core_r self) (core_na self)"

definition effective_area_from_bessel_distribution :: "ActiveFiber \<Rightarrow> real \<Rightarrow> error + real" where
  "effective_area_from_bessel_distribution self freq = Inl NotImplementedError"

text \<open>
  \<^verbatim>\<open>nonlinear_effective_area\<close>: an \<^verbatim>\<open>if\<close>/\<^verbatim>\<open>elif\<close> chain with no \<^verbatim>\<open>else\<close>; a
  call that falls through returns Python's \<^verbatim>\<open>None\<close>, the \<open>Inr None\<close> of the model.
\<close>

definition nonlinear_effective_area :: "helper_funcs \<Rightarrow> ActiveFiber \<Rightarrow> real \<Rightarrow> error + real option" where
  "nonlinear_effective_area h self freq =
     (if effective_area_type self = ''core_area''
        then Inr (Some (effective_area_from_core_area self freq))
      else if effective_area_type self = ''gaussian''
        then Inr (Some (effective_area_from_gaussian_approximation h self freq))
      else if effective_area_type self = ''bessel''
        then bind_result (effective_area_from_bessel_distribution self freq) (\<lambda>a. Inr (Some a))
      else Inr None)"

text \<open>\<^verbatim>\<open>np.mean([a, b])\<close> of two floats.\<close>

definition np_mean2 :: "real \<Rightarrow> real \<Rightarrow> real" where
  "np_mean2 a b = (a + b) / 2"

definition finite_bandwidth_gain :: "helper_funcs \<Rightarrow> ActiveFiber \<Rightarrow> real \<Rightarrow> real \<Rightarrow> real \<Rightarrow> error + real" where
  "finite_bandwidth_gain h self center_frequency frequency_bandwidth mode_field_radius =
     (let start_frequency = center_frequency - frequency_bandwidth / 2;
          end_frequency = center_frequency + frequency_bandwidth / 2
      in bind_result (get_channel_gain h self start_frequency mode_field_radius) (\<lambda>start_gain.
         bind_result (get_channel_gain h self end_frequency mode_field_radius) (\<lambda>end_gain.
         Inr (np_mean2 start_gain end_gain))))"

definition finite_bandwidth_absorption :: "helper_funcs \<Rightarrow> ActiveFiber \<Rightarrow> real \<Rightarrow> real \<Rightarrow> real \<Rightarrow> error + real" where
  "finite_bandwidth_absorption h self center_frequency frequency_bandwidth mode_field_radius =
     (let start_frequency = center_frequency - frequency_bandwidth / 2;
          end_frequency = center_frequency + frequency_bandwidth / 2
      in bind_result (get_channel_absorption h self start_frequency mode_field_radius) (\<lambda>start_absorption.
         bind_result (get_channel_absorption h self end_frequency mode_field_radius) (\<lambda>end_absorption.
         Inr (np_mean2 start_absorption end_absorption))))"

section \<open>Definitions used by the statements and proofs\<close>

text \<open>
  These definitions are not part of the program. \<open>put_rows\<close> is the array that a
  successful slice assignment leaves behind, \<open>assign_all\<close> and \<open>put_all\<close> run a list of
  assignments with and without the shape check, and \<open>category_rows\<close> lists the seven
  assignments of \<^verbatim>\<open>make_guess\<close> in their order.
\<close>

definition put_rows :: "slice \<Rightarrow> array2d \<Rightarrow> array2d \<Rightarrow> array2d" where
  "put_rows s rows g = take (fst s) g @ rows @ drop (fst s + length rows) g"

definition in_slice :: "slice \<Rightarrow> nat \<Rightarrow> bool" where
  "in_slice s i = (fst s \<le> i \<and> i < snd s)"

fun assign_all :: "(slice \<times> array2d) list \<Rightarrow> nat \<Rightarrow> array2d \<Rightarrow> error + array2d" where
  "assign_all [] m g = Inr g"
| "assign_all ((s, rows) # rest) m g = bind_result (set_slice s rows m g) (assign_all rest m)"

fun put_all :: "(slice \<times> array2d) list \<Rightarrow> array2d \<Rightarrow> array2d" where
  "put_all [] g = g"
| "put_all ((s, rows) # rest) g = put_all rest (put_rows s rows g)"

definition fits :: "nat \<Rightarrow> nat \<Rightarrow> slice \<times> array2d \<Rightarrow> bool" where
  "fits n m sr = (length (snd sr) = min (snd (fst sr) - fst (fst sr)) (n - fst (fst sr))
                  \<and> list_all (\<lambda>r. length r = m) (snd sr))"

definition category_rows :: "InitialGuessMaker \<Rightarrow> array2d \<Rightarrow> (slice \<times> array2d) list" where
  "category_rows self sg =
     [(signal_slice (slices self), sg),
      (co_pump_slice (slices self), make_co_pump_guess self),
      (counter_pump_slice (slices self), make_counter_pump_guess self),
      (forward_ase_slice (slices self), make_forward_ase_guess self),
      (backward_ase_slice (slices self), make_backward_ase_guess self),
      (forward_raman_slice (slices self), make_forward_raman_guess self),
      (backward_raman_slice (slices self), make_backward_raman_guess self)]"

text \<open>
  The seven category slices partition \<open>[0, n)\<close>: each slice is a range within
  \<open>[0, n)\<close> and every index below \<open>n\<close> lies in exactly one of them. No order of the
  categories is assumed.
\<close>

definition category_slices :: "slice_map \<Rightarrow> slice list" where
  "category_slices sl =
     [signal_slice sl, co_pump_slice sl, counter_pump_slice sl, forward_ase_slice sl,
      backward_ase_slice sl, forward_raman_slice sl, backward_raman_slice sl]"

definition slices_partition :: "slice_map \<Rightarrow> nat \<Rightarrow> bool" where
  "slices_partition sl n =
     (list_all (\<lambda>s. fst s \<le> snd s \<and> snd s \<le> n) (category_slices sl)
      \<and> list_all (\<lambda>i. length (filter (\<lambda>s. in_slice s i) (category_slices sl)) = 1) [0..<n])"

text \<open>The sum of all co-propagating and all counter-propagating pump input powers.\<close>

definition all_pump_input_power :: "vec \<Rightarrow> slice_map \<Rightarrow> real" where
  "all_pump_input_power ip sl =
     sum_list (get_slice (co_pump_slice sl) ip) + sum_list (get_slice (counter_pump_slice sl) ip)"

text \<open>
  A concrete amplifier for the worked examples: one signal of 1 W, a co-propagating pump
  of 2 W, a counter-propagating pump of 4 W and one forward and one backward ASE channel
  with no input power, in this order, and no Raman channels. The example fibre has
  step-shaped cross sections, and the example helpers are simple stand-ins for the
  functions of \<^verbatim>\<open>helper_funcs.py\<close>.
\<close>

definition example_slices :: slice_map where
  "example_slices =
     \<lparr> signal_slice = (0, 1), co_pump_slice = (1, 2), counter_pump_slice = (2, 3),
       forward_ase_slice = (3, 4), backward_ase_slice = (4, 5),
       forward_raman_slice = (5, 5), backward_raman_slice = (5, 5) \<rparr>"

definition example_helpers :: helper_funcs where
  "example_helpers =
     \<lparr> freq_to_wl = (\<lambda>f. 299792458 / f),
       fundamental_mode_mfd_petermann_2 = (\<lambda>wl r na. 2 * r * (wl / na)),
       effective_area_from_mfd = (\<lambda>wl r na. 3 * (r * (wl / na))\<^sup>2),
       overlap_integral = (\<lambda>r w. r / (r + w)) \<rparr>"

definition example_fiber :: ActiveFiber where
  "example_fiber =
     \<lparr> absorption_cs_interp = (\<lambda>f. if f < 10 then 2 else 6),
       gain_cs_interp = (\<lambda>f. if f < 10 then 1 else 4),
       fiber_length = 3,
       core_r = 2,
       tau = 1,
       ion_number_density = 5,
       background_loss = 0,
       core_na = 1 / 10,
       overlap = None,
       effective_area_type = ''core_area'' \<rparr>"

section \<open>Slices, assignments and interpolated rows\<close>

subsection \<open>Reading and writing slices\<close>

lemma length_get_slice: "length (get_slice s xs) = min (snd s - fst s) (length xs - fst s)"
  by (simp add: get_slice_def)

lemma nth_get_slice: "i < length (get_slice s xs) \<Longrightarrow> get_slice s xs ! i = xs ! (fst s + i)"
proof -
  assume "i < length (get_slice s xs)"
  then have "i < snd s - fst s" and "fst s \<le> length xs"
    by (auto simp add: get_slice_def)
  then show ?thesis by (simp add: get_slice_def)
qed

lemma set_get_slice: "set (get_slice s xs) \<subseteq> set xs"
  unfolding get_slice_def by (meson set_take_subset set_drop_subset subset_trans)

lemma get_slice_nonneg: "\<forall>x \<in> set ip. (0::real) \<le> x \<Longrightarrow> \<forall>x \<in> set (get_slice s ip). 0 \<le> x"
  using set_get_slice [of s ip] by blast

lemma set_slice_Inr:
  assumes "length rows = length (get_slice s g)" and "list_all (\<lambda>r. length r = m) rows"
  shows "set_slice s rows m g = Inr (put_rows s rows g)"
  using assms by (simp add: set_slice_def put_rows_def Let_def)

lemma length_put_rows:
  assumes "length rows = length (get_slice s g)"
  shows "length (put_rows s rows g) = length g"
proof -
  have "length rows \<le> length g - fst s"
    using assms by (simp add: length_get_slice)
  then show ?thesis
    unfolding put_rows_def by (auto simp add: min_def)
qed

lemma set_put_rows: "set (put_rows s rows g) \<subseteq> set g \<union> set rows"
proof -
  have "set (take (fst s) g) \<subseteq> set g" by (rule set_take_subset)
  moreover have "set (drop (fst s + length rows) g) \<subseteq> set g" by (rule set_drop_subset)
  ultimately show ?thesis by (auto simp: put_rows_def)
qed

lemma nth_put_rows:
  assumes "length rows = length (get_slice s g)" and "i < length g"
  shows "put_rows s rows g ! i =
           (if fst s \<le> i \<and> i < fst s + length rows then rows ! (i - fst s) else g ! i)"
proof -
  have k: "length rows = min (snd s - fst s) (length g - fst s)"
    using assms(1) by (simp add: length_get_slice)
  show ?thesis
  proof (cases "i < fst s")
    case True
    then show ?thesis using assms(2) by (simp add: put_rows_def nth_append)
  next
    case False
    note ge = this
    show ?thesis
    proof (cases "i < fst s + length rows")
      case True
      then have "i - fst s < length rows" using ge by linarith
      then show ?thesis using ge True assms(2) by (simp add: put_rows_def nth_append)
    next
      case False
      then show ?thesis using ge assms(2) k by (auto simp add: put_rows_def nth_append min_def)
    qed
  qed
qed

lemma put_rows_here:
  assumes "length rows = length (get_slice s g)" and "i < length g" and "in_slice s i"
  shows "put_rows s rows g ! i = rows ! (i - fst s)"
proof -
  have "fst s \<le> i \<and> i < fst s + length rows"
    using assms by (auto simp: in_slice_def length_get_slice)
  then show ?thesis using nth_put_rows [OF assms(1,2)] by simp
qed

lemma put_rows_other:
  assumes "length rows = length (get_slice s g)" and "i < length g" and "\<not> in_slice s i"
  shows "put_rows s rows g ! i = g ! i"
proof -
  have c: "(fst s \<le> i \<and> i < fst s + length rows) = False"
    using assms by (auto simp: in_slice_def length_get_slice)
  show ?thesis unfolding nth_put_rows [OF assms(1,2)] c by simp
qed

lemma fits_put_rows:
  assumes "fits (length g) m (s, rows)"
  shows "set_slice s rows m g = Inr (put_rows s rows g)" and "length (put_rows s rows g) = length g"
proof -
  have l: "length rows = length (get_slice s g)"
    using assms by (simp add: fits_def length_get_slice)
  show "set_slice s rows m g = Inr (put_rows s rows g)"
    using l assms by (simp add: set_slice_Inr fits_def)
  show "length (put_rows s rows g) = length g"
    using l by (rule length_put_rows)
qed

subsection \<open>A list of assignments\<close>

lemma assign_all_put_all:
  assumes "\<forall>sr \<in> set l. fits (length g) m sr"
  shows "assign_all l m g = Inr (put_all l g) \<and> length (put_all l g) = length g"
  using assms
proof (induction l arbitrary: g)
  case Nil
  then show ?case by simp
next
  case (Cons sr rest)
  obtain s rows where sr: "sr = (s, rows)" by (cases sr)
  have f: "fits (length g) m (s, rows)" using Cons.prems sr by simp
  have len: "length (put_rows s rows g) = length g" using f by (rule fits_put_rows)
  have "\<forall>x \<in> set rest. fits (length (put_rows s rows g)) m x"
    using Cons.prems len by simp
  from Cons.IH [OF this] show ?case
    using fits_put_rows(1) [OF f] len by (simp add: sr bind_result_def)
qed

lemma put_all_untouched:
  assumes "\<forall>sr \<in> set l. fits (length g) m sr" and "i < length g"
    and "\<forall>sr \<in> set l. \<not> in_slice (fst sr) i"
  shows "put_all l g ! i = g ! i"
  using assms
proof (induction l arbitrary: g)
  case Nil
  then show ?case by simp
next
  case (Cons sr rest)
  obtain s rows where sr: "sr = (s, rows)" by (cases sr)
  have f: "fits (length g) m (s, rows)" using Cons.prems sr by simp
  have l: "length rows = length (get_slice s g)"
    using f by (simp add: fits_def length_get_slice)
  have len: "length (put_rows s rows g) = length g" using f by (rule fits_put_rows)
  have "put_all rest (put_rows s rows g) ! i = put_rows s rows g ! i"
    using Cons.prems len by (intro Cons.IH) simp_all
  also have "\<dots> = g ! i"
    using Cons.prems(2,3) l sr by (simp add: put_rows_other)
  finally show ?case by (simp add: sr)
qed

lemma put_all_owner:
  assumes "\<forall>sr \<in> set l. fits (length g) m sr" and "i < length g"
    and "length (filter (\<lambda>s. in_slice s i) (map fst l)) = 1"
    and "(s, rows) \<in> set l" and "in_slice s i"
  shows "put_all l g ! i = rows ! (i - fst s)"
  using assms
proof (induction l arbitrary: g)
  case Nil
  then show ?case by simp
next
  case (Cons sr rest)
  obtain s0 r0 where sr: "sr = (s0, r0)" by (cases sr)
  have f: "fits (length g) m (s0, r0)" using Cons.prems sr by simp
  have l: "length r0 = length (get_slice s0 g)"
    using f by (simp add: fits_def length_get_slice)
  have len: "length (put_rows s0 r0 g) = length g" using f by (rule fits_put_rows)
  have rest_fits: "\<forall>x \<in> set rest. fits (length (put_rows s0 r0 g)) m x"
    using Cons.prems(1) len by simp
  have i': "i < length (put_rows s0 r0 g)" using Cons.prems(2) len by simp
  show ?case
  proof (cases "in_slice s0 i")
    case True
    then have "length (filter (\<lambda>s. in_slice s i) (map fst rest)) = 0"
      using Cons.prems(3) sr by simp
    then have none: "\<forall>x \<in> set rest. \<not> in_slice (fst x) i"
      by (auto simp: filter_empty_conv)
    then have "(s, rows) \<notin> set rest" using Cons.prems(5) by force
    then have eq: "(s, rows) = (s0, r0)" using Cons.prems(4) sr by simp
    have "put_all rest (put_rows s0 r0 g) ! i = put_rows s0 r0 g ! i"
      using rest_fits i' none by (rule put_all_untouched)
    also have "\<dots> = r0 ! (i - fst s0)"
      using l Cons.prems(2) True by (rule put_rows_here)
    finally show ?thesis using eq by (simp add: sr)
  next
    case False
    then have one: "length (filter (\<lambda>s. in_slice s i) (map fst rest)) = 1"
      using Cons.prems(3) sr by simp
    have "(s, rows) \<in> set rest"
      using Cons.prems(4,5) False sr by auto
    from Cons.IH [OF rest_fits i' one this Cons.prems(5)]
    show ?thesis by (simp add: sr)
  qed
qed

lemma set_put_all:
  "set (put_all l g) \<subseteq> set g \<union> (\<Union>sr \<in> set l. set (snd sr))"
proof (induction l arbitrary: g)
  case Nil
  then show ?case by simp
next
  case (Cons sr rest)
  obtain s rows where sr: "sr = (s, rows)" by (cases sr)
  have "set (put_all rest (put_rows s rows g))
          \<subseteq> set (put_rows s rows g) \<union> (\<Union>x \<in> set rest. set (snd x))"
    by (rule Cons.IH)
  moreover have "set (put_rows s rows g) \<subseteq> set g \<union> set rows"
    by (rule set_put_rows)
  ultimately show ?case by (auto simp: sr)
qed

subsection \<open>Linear and exponential rows\<close>

lemma length_linspace_row: "length (linspace_row s e n) = n"
  by (simp add: linspace_row_def)

lemma nth_linspace_row:
  "j < n \<Longrightarrow> linspace_row s e n ! j = s + real j * (e - s) / (real n - 1)"
  by (simp add: linspace_row_def)

lemma linspace_row_first: "0 < n \<Longrightarrow> linspace_row s e n ! 0 = s"
  by (simp add: nth_linspace_row)

lemma linspace_row_last: "2 \<le> n \<Longrightarrow> linspace_row s e n ! (n - 1) = e"
proof -
  assume n: "2 \<le> n"
  then have "real (n - 1) = real n - 1" by (simp add: of_nat_diff)
  moreover have "real n - 1 \<noteq> 0" using n by simp
  ultimately show ?thesis using n by (simp add: nth_linspace_row)
qed

lemma linspace_row_nonneg:
  assumes "0 \<le> s" and "0 \<le> e" and "2 \<le> n" and "x \<in> set (linspace_row s e n)"
  shows "0 \<le> x"
proof -
  from assms(4) obtain j where j: "j < n" and x: "x = s + real j * (e - s) / (real n - 1)"
    by (auto simp: linspace_row_def)
  define t where "t = real j / (real n - 1)"
  have d: "0 < real n - 1" using assms(3) by simp
  have "real j \<le> real n - 1" using j by (simp add: of_nat_diff)
  then have t: "0 \<le> t" "t \<le> 1" using d by (simp_all add: t_def)
  have "x = s + t * (e - s)"
    unfolding x t_def by simp
  then have "x = (1 - t) * s + t * e"
    by (simp add: algebra_simps)
  moreover have "0 \<le> (1 - t) * s" using t assms(1) by simp
  moreover have "0 \<le> t * e" using t assms(2) by simp
  ultimately show ?thesis by linarith
qed

lemma rev_linspace_row:
  assumes "2 \<le> n"
  shows "rev (linspace_row s e n) = linspace_row e s n"
proof (rule nth_equalityI)
  show "length (rev (linspace_row s e n)) = length (linspace_row e s n)"
    by (simp add: length_linspace_row)
next
  fix j assume "j < length (rev (linspace_row s e n))"
  then have j: "j < n" by (simp add: length_linspace_row)
  have d: "real n - 1 \<noteq> 0" using assms by simp
  have r: "real (n - Suc j) = real n - 1 - real j" using j by (simp add: of_nat_diff)
  have "rev (linspace_row s e n) ! j = linspace_row s e n ! (n - Suc j)"
    using j by (simp add: rev_nth length_linspace_row)
  also have "\<dots> = s + (real n - 1 - real j) * (e - s) / (real n - 1)"
    using j r by (simp add: nth_linspace_row)
  also have "\<dots> = e + real j * (s - e) / (real n - 1)"
    using d by (simp add: field_simps)
  also have "\<dots> = linspace_row e s n ! j"
    using j by (simp add: nth_linspace_row)
  finally show "rev (linspace_row s e n) ! j = linspace_row e s n ! j" .
qed

lemma length_linspace_2d: "length (linspace_2d a b n) = min (length a) (length b)"
  by (simp add: linspace_2d_def)

lemma nth_linspace_2d:
  "i < length a \<Longrightarrow> i < length b \<Longrightarrow> linspace_2d a b n ! i = linspace_row (a ! i) (b ! i) n"
  by (simp add: linspace_2d_def)

lemma linspace_2d_cols: "list_all (\<lambda>r. length r = n) (linspace_2d a b n)"
  by (auto simp: linspace_2d_def list_all_iff length_linspace_row)

lemma linspace_2d_nonneg:
  assumes "row \<in> set (linspace_2d a b m)" and "x \<in> set row" and "2 \<le> m"
    and "\<forall>x \<in> set a. 0 \<le> x" and "\<forall>x \<in> set b. 0 \<le> x"
  shows "0 \<le> x"
proof -
  from assms(1) obtain s e where se: "(s, e) \<in> set (zip a b)" and row: "row = linspace_row s e m"
    by (auto simp: linspace_2d_def)
  have "s \<in> set a" and "e \<in> set b"
    using se by (auto dest: set_zip_leftD set_zip_rightD)
  then have "0 \<le> s" and "0 \<le> e" using assms(4,5) by simp_all
  then show ?thesis using assms(2,3) row linspace_row_nonneg by blast
qed

lemma length_exponential_row: "length (exponential_row zg s e) = length zg"
  by (simp add: exponential_row_def Let_def)

lemma nth_exponential_row:
  "j < length zg \<Longrightarrow> exponential_row zg s e ! j = s * exp (zg ! j * ln (e / s) / last zg)"
  by (simp add: exponential_row_def Let_def mult.commute)

lemma exponential_row_first:
  assumes "zg \<noteq> []" and "hd zg = 0"
  shows "exponential_row zg s e ! 0 = s"
proof -
  have "zg ! 0 = 0" using assms by (simp add: hd_conv_nth)
  then show ?thesis using assms(1) by (simp add: nth_exponential_row)
qed

lemma exponential_row_last:
  assumes "zg \<noteq> []" and "0 < last zg" and "0 < s" and "0 < e"
  shows "exponential_row zg s e ! (length zg - 1) = e"
proof -
  have l: "zg ! (length zg - 1) = last zg" using assms(1) by (simp add: last_conv_nth)
  have "0 < e / s" using assms(3,4) by simp
  then have "exp (ln (e / s)) = e / s" by simp
  moreover have "last zg * ln (e / s) / last zg = ln (e / s)" using assms(2) by simp
  ultimately show ?thesis using assms(1,3) l by (simp add: nth_exponential_row)
qed

subsection \<open>The assignments of \<^verbatim>\<open>make_guess\<close>\<close>

lemma init_fields:
  "input_powers (init ip sl zg p) = ip"
  "signal_powers (init ip sl zg p) = get_slice (signal_slice sl) ip"
  "co_pump_powers (init ip sl zg p) = get_slice (co_pump_slice sl) ip"
  "counter_pump_powers (init ip sl zg p) = get_slice (counter_pump_slice sl) ip"
  "forward_ase_powers (init ip sl zg p) = get_slice (forward_ase_slice sl) ip"
  "backward_ase_powers (init ip sl zg p) = get_slice (backward_ase_slice sl) ip"
  "forward_raman_powers (init ip sl zg p) = get_slice (forward_raman_slice sl) ip"
  "backward_raman_powers (init ip sl zg p) = get_slice (backward_raman_slice sl) ip"
  "slices (init ip sl zg p) = sl"
  "z (init ip sl zg p) = zg"
  "params (init ip sl zg p) = p"
  by (simp_all add: init_def)

lemma make_guess_assign_all:
  "make_guess self =
     bind_result (make_signal_guess self)
       (\<lambda>sg. assign_all (category_rows self sg) (length (z self)) (np_zeros (guess_shape self)))"
  by (simp add: make_guess_def category_rows_def guess_shape_def Let_def bind_result_def
      split: sum.splits)

lemma length_np_zeros: "length (np_zeros (n, m)) = n"
  by (simp add: np_zeros_def)

lemma np_zeros_entries: "row \<in> set (np_zeros (n, m)) \<Longrightarrow> x \<in> set row \<Longrightarrow> x = 0"
  by (auto simp: np_zeros_def)

lemma np_zeros_cols: "row \<in> set (np_zeros (n, m)) \<Longrightarrow> length row = m"
  by (auto simp: np_zeros_def)

lemma fits_linspace_2d:
  assumes "length a = length (get_slice s ip)" and "length b = length a"
  shows "fits (length ip) m (s, linspace_2d a b m)"
  using assms by (simp add: fits_def length_linspace_2d linspace_2d_cols length_get_slice)

lemma signal_guess_linear:
  assumes "signal_gain_shape (params self) = ''linear''"
  shows "make_signal_guess self =
     Inr (linspace_2d (signal_powers self)
          (map (\<lambda>s. signal_conversion_guess (params self)
                      * (sum_list (co_pump_powers self) + sum_list (counter_pump_powers self)) + s)
               (signal_powers self))
          (length (z self)))"
  using assms by (simp add: make_signal_guess_def Let_def linear_guess_def)

lemma signal_guess_exponential:
  assumes "signal_gain_shape (params self) = ''exponential''" and "z self \<noteq> []"
  shows "make_signal_guess self =
     Inr (map (\<lambda>(s, e). exponential_row (z self) s e)
          (zip (signal_powers self)
            (map (\<lambda>s. signal_conversion_guess (params self)
                      * (sum_list (co_pump_powers self) + sum_list (counter_pump_powers self)) + s)
               (signal_powers self))))"
  using assms by (simp add: make_signal_guess_def Let_def exponential_guess_def)

lemma signal_guess_returns:
  assumes "signal_gain_shape p = ''linear'' \<or> signal_gain_shape p = ''exponential'' \<and> zg \<noteq> []"
  shows "\<exists>sg. make_signal_guess (init ip sl zg p) = Inr sg
            \<and> fits (length ip) (length zg) (signal_slice sl, sg)"
proof -
  let ?self = "init ip sl zg p"
  from assms show ?thesis
  proof
    assume "signal_gain_shape p = ''linear''"
    then have "signal_gain_shape (params ?self) = ''linear''" by (simp add: init_fields)
    from signal_guess_linear [OF this] show ?thesis
      by (simp add: init_fields fits_linspace_2d)
  next
    assume a: "signal_gain_shape p = ''exponential'' \<and> zg \<noteq> []"
    then have "signal_gain_shape (params ?self) = ''exponential''" and "z ?self \<noteq> []"
      by (simp_all add: init_fields)
    from signal_guess_exponential [OF this] show ?thesis
      by (auto simp add: init_fields fits_def length_get_slice list_all_iff length_exponential_row)
  qed
qed

lemma category_rows_fit:
  assumes "fits (length ip) (length zg) (signal_slice sl, sg)"
  shows "\<forall>sr \<in> set (category_rows (init ip sl zg p) sg). fits (length ip) (length zg) sr"
  using assms
  by (simp add: category_rows_def init_fields make_co_pump_guess_def make_counter_pump_guess_def
      make_forward_ase_guess_def make_backward_ase_guess_def make_forward_raman_guess_def
      make_backward_raman_guess_def linear_guess_def np_full_like_def Let_def fits_linspace_2d)

lemma make_guess_put_all:
  assumes "make_signal_guess (init ip sl zg p) = Inr sg"
    and "fits (length ip) (length zg) (signal_slice sl, sg)"
  shows "make_guess (init ip sl zg p)
           = Inr (put_all (category_rows (init ip sl zg p) sg) (np_zeros (length ip, length zg)))"
    and "length (put_all (category_rows (init ip sl zg p) sg) (np_zeros (length ip, length zg)))
           = length ip"
proof -
  let ?self = "init ip sl zg p"
  let ?g0 = "np_zeros (length ip, length zg)"
  have "\<forall>sr \<in> set (category_rows ?self sg). fits (length ?g0) (length zg) sr"
    using category_rows_fit [OF assms(2)] by (simp add: length_np_zeros)
  from assign_all_put_all [OF this]
  have a: "assign_all (category_rows ?self sg) (length zg) ?g0 = Inr (put_all (category_rows ?self sg) ?g0)"
    and l: "length (put_all (category_rows ?self sg) ?g0) = length ?g0"
    by simp_all
  show "make_guess ?self = Inr (put_all (category_rows ?self sg) ?g0)"
    unfolding make_guess_assign_all assms(1) using a
    by (simp add: bind_result_def guess_shape_def init_fields)
  show "length (put_all (category_rows ?self sg) ?g0) = length ip"
    using l by (simp add: length_np_zeros)
qed

lemma map_fst_category_rows: "map fst (category_rows (init ip sl zg p) sg) = category_slices sl"
  by (simp add: category_rows_def category_slices_def init_fields)

lemma partition_bounds:
  assumes "slices_partition sl n" and "s \<in> set (category_slices sl)"
  shows "fst s \<le> snd s" and "snd s \<le> n"
  using assms by (auto simp: slices_partition_def list_all_iff)

lemma partition_unique:
  assumes "slices_partition sl n" and "i < n"
  shows "length (filter (\<lambda>s. in_slice s i) (category_slices sl)) = 1"
  using assms by (simp add: slices_partition_def list_all_iff)

lemma guess_row:
  assumes part: "slices_partition sl (length ip)"
    and fit: "fits (length ip) (length zg) (signal_slice sl, sg)"
    and mem: "(s, rows) \<in> set (category_rows (init ip sl zg p) sg)"
    and i: "in_slice s i"
  shows "put_all (category_rows (init ip sl zg p) sg) (np_zeros (length ip, length zg)) ! i
           = rows ! (i - fst s)"
    and "i < length ip" and "i - fst s < length rows" and "fst s + (i - fst s) = i"
    and "length rows = length (get_slice s ip)"
proof -
  let ?l = "category_rows (init ip sl zg p) sg"
  let ?g0 = "np_zeros (length ip, length zg)"
  have "s \<in> set (map fst ?l)" using mem by force
  then have s: "s \<in> set (category_slices sl)" by (simp add: map_fst_category_rows)
  have b: "snd s \<le> length ip" using part s by (rule partition_bounds)
  show n: "i < length ip" using i b by (simp add: in_slice_def)
  have fits: "\<forall>sr \<in> set ?l. fits (length ?g0) (length zg) sr"
    using category_rows_fit [OF fit] by (simp add: length_np_zeros)
  have i0: "i < length ?g0" using n by (simp add: length_np_zeros)
  have one: "length (filter (\<lambda>s. in_slice s i) (map fst ?l)) = 1"
    using partition_unique [OF part n] by (simp add: map_fst_category_rows)
  show "put_all ?l ?g0 ! i = rows ! (i - fst s)"
    using fits i0 one mem i by (rule put_all_owner)
  have "fits (length ip) (length zg) (s, rows)"
    using category_rows_fit [OF fit] mem by blast
  then have len: "length rows = min (snd s - fst s) (length ip - fst s)"
    by (simp add: fits_def)
  then show "length rows = length (get_slice s ip)" by (simp add: length_get_slice)
  show "i - fst s < length rows" using len i n by (auto simp: in_slice_def)
  show "fst s + (i - fst s) = i" using i by (simp add: in_slice_def)
qed

lemma guess_slice:
  assumes part: "slices_partition sl (length ip)"
    and fit: "fits (length ip) (length zg) (signal_slice sl, sg)"
    and mem: "(s, rows) \<in> set (category_rows (init ip sl zg p) sg)"
  shows "get_slice s (put_all (category_rows (init ip sl zg p) sg) (np_zeros (length ip, length zg)))
           = rows"
proof (rule nth_equalityI)
  let ?l = "category_rows (init ip sl zg p) sg"
  let ?G = "put_all ?l (np_zeros (length ip, length zg))"
  have "\<forall>sr \<in> set ?l. fits (length (np_zeros (length ip, length zg))) (length zg) sr"
    using category_rows_fit [OF fit] by (simp add: length_np_zeros)
  from assign_all_put_all [OF this] have lenG: "length ?G = length ip"
    by (simp add: length_np_zeros)
  have "fits (length ip) (length zg) (s, rows)"
    using category_rows_fit [OF fit] mem by blast
  then have len: "length rows = min (snd s - fst s) (length ip - fst s)"
    by (simp add: fits_def)
  show l: "length (get_slice s ?G) = length rows"
    using len lenG by (simp add: length_get_slice)
  fix j assume j: "j < length (get_slice s ?G)"
  then have "j < snd s - fst s" using l len by simp
  then have "in_slice s (fst s + j)" by (simp add: in_slice_def)
  from guess_row(1) [OF part fit mem this] have "?G ! (fst s + j) = rows ! j" by simp
  then show "get_slice s ?G ! j = rows ! j" using j by (simp add: nth_get_slice)
qed

lemma guess_cols:
  assumes fit: "fits (length ip) (length zg) (signal_slice sl, sg)"
    and row: "row \<in> set (put_all (category_rows (init ip sl zg p) sg) (np_zeros (length ip, length zg)))"
  shows "length row = length zg"
proof -
  let ?l = "category_rows (init ip sl zg p) sg"
  from row set_put_all [of ?l "np_zeros (length ip, length zg)"]
  consider "row \<in> set (np_zeros (length ip, length zg))"
    | sr where "sr \<in> set ?l" and "row \<in> set (snd sr)"
    by auto
  then show ?thesis
  proof cases
    case 1
    then show ?thesis by (rule np_zeros_cols)
  next
    case 2
    then have "fits (length ip) (length zg) sr" using category_rows_fit [OF fit] by blast
    then show ?thesis using 2(2) by (simp add: fits_def list_all_iff)
  qed
qed

subsection \<open>Row \<open>j\<close> of each category\<close>

lemma co_pump_row:
  assumes "j < length (get_slice (co_pump_slice sl) ip)"
  shows "make_co_pump_guess (init ip sl zg p) ! j =
           linspace_row (ip ! (fst (co_pump_slice sl) + j))
             (pump_absorption_factor p * ip ! (fst (co_pump_slice sl) + j)) (length zg)"
  using assms
  by (simp add: make_co_pump_guess_def Let_def linear_guess_def nth_linspace_2d init_fields nth_get_slice)

lemma counter_pump_row:
  assumes "j < length (get_slice (counter_pump_slice sl) ip)"
  shows "make_counter_pump_guess (init ip sl zg p) ! j =
           linspace_row (pump_absorption_factor p * ip ! (fst (counter_pump_slice sl) + j))
             (ip ! (fst (counter_pump_slice sl) + j)) (length zg)"
  using assms
  by (simp add: make_counter_pump_guess_def Let_def linear_guess_def nth_linspace_2d init_fields nth_get_slice)

lemma forward_ase_row:
  assumes "j < length (get_slice (forward_ase_slice sl) ip)"
  shows "make_forward_ase_guess (init ip sl zg p) ! j =
           linspace_row (ip ! (fst (forward_ase_slice sl) + j)) (ase_output_power p) (length zg)"
  using assms
  by (simp add: make_forward_ase_guess_def Let_def linear_guess_def nth_linspace_2d init_fields
      nth_get_slice np_full_like_def)

lemma backward_ase_row:
  assumes "j < length (get_slice (backward_ase_slice sl) ip)"
  shows "make_backward_ase_guess (init ip sl zg p) ! j =
           linspace_row (ase_output_power p) (ip ! (fst (backward_ase_slice sl) + j)) (length zg)"
  using assms
  by (simp add: make_backward_ase_guess_def Let_def linear_guess_def nth_linspace_2d init_fields
      nth_get_slice np_full_like_def)

lemma forward_raman_row:
  assumes "j < length (get_slice (forward_raman_slice sl) ip)"
  shows "make_forward_raman_guess (init ip sl zg p) ! j =
           linspace_row (ip ! (fst (forward_raman_slice sl) + j))
             (ip ! (fst (forward_raman_slice sl) + j) * 2) (length zg)"
  using assms
  by (simp add: make_forward_raman_guess_def Let_def linear_guess_def nth_linspace_2d init_fields nth_get_slice)

lemma backward_raman_row:
  assumes "j < length (get_slice (backward_raman_slice sl) ip)"
  shows "make_backward_raman_guess (init ip sl zg p) ! j =
           linspace_row (ip ! (fst (backward_raman_slice sl) + j))
             (ip ! (fst (backward_raman_slice sl) + j)) (length zg)"
  using assms
  by (simp add: make_backward_raman_guess_def Let_def linear_guess_def nth_linspace_2d init_fields nth_get_slice)

lemma signal_row_linear:
  assumes "signal_gain_shape p = ''linear''"
    and "make_signal_guess (init ip sl zg p) = Inr sg"
    and "j < length (get_slice (signal_slice sl) ip)"
  shows "sg ! j = linspace_row (ip ! (fst (signal_slice sl) + j))
           (signal_conversion_guess p * all_pump_input_power ip sl + ip ! (fst (signal_slice sl) + j))
           (length zg)"
proof -
  have "signal_gain_shape (params (init ip sl zg p)) = ''linear''"
    using assms(1) by (simp add: init_fields)
  from signal_guess_linear [OF this] assms(2,3) show ?thesis
    by (auto simp add: init_fields nth_linspace_2d nth_get_slice all_pump_input_power_def)
qed

lemma signal_row_exponential:
  assumes "signal_gain_shape p = ''exponential''" and "zg \<noteq> []"
    and "make_signal_guess (init ip sl zg p) = Inr sg"
    and "j < length (get_slice (signal_slice sl) ip)"
  shows "sg ! j = exponential_row zg (ip ! (fst (signal_slice sl) + j))
           (signal_conversion_guess p * all_pump_input_power ip sl + ip ! (fst (signal_slice sl) + j))"
proof -
  have "signal_gain_shape (params (init ip sl zg p)) = ''exponential''" and "z (init ip sl zg p) \<noteq> []"
    using assms(1,2) by (simp_all add: init_fields)
  from signal_guess_exponential [OF this] assms(3,4) show ?thesis
    by (auto simp add: init_fields nth_get_slice all_pump_input_power_def)
qed

section \<open>Properties of \<^verbatim>\<open>InitialGuessMaker\<close>\<close>

subsection \<open>The signal guess\<close>

text \<open>
  C1: for every input-power vector and slice map, \<^verbatim>\<open>make_signal_guess\<close> builds one row
  per signal channel. Row \<open>i\<close> is interpolated from that signal's input power, which is
  entry \<open>start + i\<close> of the input-power vector for the signal slice starting at
  \<open>start\<close>, to that power plus \<^verbatim>\<open>signal_conversion_guess\<close> times the sum of all
  co-propagating and all counter-propagating pump input powers. Under the \<^verbatim>\<open>'linear'\<close>
  shape the row is the linear interpolation between the two, and on a grid of at least two
  points its first entry is the start and its last entry the end. Under the
  \<^verbatim>\<open>'exponential'\<close> shape the row is the exponential row between the two, with the
  same first and last entries when both are positive and the grid runs from zero to a
  positive length.
\<close>

theorem signal_guess_start_end:
  assumes i: "i < length (get_slice (signal_slice sl) ip)"
  shows "get_slice (signal_slice sl) ip ! i = ip ! (fst (signal_slice sl) + i)
    \<and> (signal_gain_shape p = ''linear'' \<longrightarrow>
         (\<exists>sg. make_signal_guess (init ip sl zg p) = Inr sg
            \<and> length sg = length (get_slice (signal_slice sl) ip)
            \<and> sg ! i = linspace_row (ip ! (fst (signal_slice sl) + i))
                 (ip ! (fst (signal_slice sl) + i)
                    + signal_conversion_guess p * all_pump_input_power ip sl) (length zg)
            \<and> (2 \<le> length zg \<longrightarrow>
                  sg ! i ! 0 = ip ! (fst (signal_slice sl) + i)
                \<and> sg ! i ! (length zg - 1) =
                    ip ! (fst (signal_slice sl) + i)
                      + signal_conversion_guess p * all_pump_input_power ip sl)))
    \<and> (signal_gain_shape p = ''exponential'' \<and> zg \<noteq> [] \<longrightarrow>
         (\<exists>sg. make_signal_guess (init ip sl zg p) = Inr sg
            \<and> length sg = length (get_slice (signal_slice sl) ip)
            \<and> sg ! i = exponential_row zg (ip ! (fst (signal_slice sl) + i))
                 (ip ! (fst (signal_slice sl) + i)
                    + signal_conversion_guess p * all_pump_input_power ip sl)
            \<and> (hd zg = 0 \<and> 0 < last zg \<and> 0 < ip ! (fst (signal_slice sl) + i)
                 \<and> 0 < ip ! (fst (signal_slice sl) + i)
                        + signal_conversion_guess p * all_pump_input_power ip sl \<longrightarrow>
                  sg ! i ! 0 = ip ! (fst (signal_slice sl) + i)
                \<and> sg ! i ! (length zg - 1) =
                    ip ! (fst (signal_slice sl) + i)
                      + signal_conversion_guess p * all_pump_input_power ip sl)))"
proof (intro conjI impI)
  show "get_slice (signal_slice sl) ip ! i = ip ! (fst (signal_slice sl) + i)"
    using i by (rule nth_get_slice)
next
  let ?S = "ip ! (fst (signal_slice sl) + i)"
  let ?E = "?S + signal_conversion_guess p * all_pump_input_power ip sl"
  assume lin: "signal_gain_shape p = ''linear''"
  then have "signal_gain_shape p = ''linear'' \<or> signal_gain_shape p = ''exponential'' \<and> zg \<noteq> []"
    by simp
  from signal_guess_returns [OF this, of ip sl]
  obtain sg where sg: "make_signal_guess (init ip sl zg p) = Inr sg"
    and fit: "fits (length ip) (length zg) (signal_slice sl, sg)"
    by blast
  have len: "length sg = length (get_slice (signal_slice sl) ip)"
    using fit by (simp add: fits_def length_get_slice)
  have row: "sg ! i = linspace_row ?S ?E (length zg)"
    using signal_row_linear [OF lin sg i] by (simp add: add.commute)
  have "sg ! i ! 0 = ?S \<and> sg ! i ! (length zg - 1) = ?E" if "2 \<le> length zg"
  proof
    have "0 < length zg" using that by linarith
    then show "sg ! i ! 0 = ?S" unfolding row by (rule linspace_row_first)
    show "sg ! i ! (length zg - 1) = ?E" unfolding row using that by (rule linspace_row_last)
  qed
  with sg len row
  show "\<exists>sg. make_signal_guess (init ip sl zg p) = Inr sg
            \<and> length sg = length (get_slice (signal_slice sl) ip)
            \<and> sg ! i = linspace_row ?S ?E (length zg)
            \<and> (2 \<le> length zg \<longrightarrow> sg ! i ! 0 = ?S \<and> sg ! i ! (length zg - 1) = ?E)"
    by blast
next
  let ?S = "ip ! (fst (signal_slice sl) + i)"
  let ?E = "?S + signal_conversion_guess p * all_pump_input_power ip sl"
  assume ex: "signal_gain_shape p = ''exponential'' \<and> zg \<noteq> []"
  then have "signal_gain_shape p = ''linear'' \<or> signal_gain_shape p = ''exponential'' \<and> zg \<noteq> []"
    by simp
  from signal_guess_returns [OF this, of ip sl]
  obtain sg where sg: "make_signal_guess (init ip sl zg p) = Inr sg"
    and fit: "fits (length ip) (length zg) (signal_slice sl, sg)"
    by blast
  have len: "length sg = length (get_slice (signal_slice sl) ip)"
    using fit by (simp add: fits_def length_get_slice)
  have row: "sg ! i = exponential_row zg ?S ?E"
    using signal_row_exponential [OF _ _ sg i] ex by (simp add: add.commute)
  have "sg ! i ! 0 = ?S \<and> sg ! i ! (length zg - 1) = ?E"
    if h: "hd zg = 0 \<and> 0 < last zg \<and> 0 < ?S \<and> 0 < ?E"
  proof
    show "sg ! i ! 0 = ?S" unfolding row using ex h by (intro exponential_row_first) simp_all
    show "sg ! i ! (length zg - 1) = ?E"
      unfolding row using ex h by (intro exponential_row_last) simp_all
  qed
  with sg len row
  show "\<exists>sg. make_signal_guess (init ip sl zg p) = Inr sg
            \<and> length sg = length (get_slice (signal_slice sl) ip)
            \<and> sg ! i = exponential_row zg ?S ?E
            \<and> (hd zg = 0 \<and> 0 < last zg \<and> 0 < ?S \<and> 0 < ?E \<longrightarrow>
                  sg ! i ! 0 = ?S \<and> sg ! i ! (length zg - 1) = ?E)"
    by blast
qed

theorem signal_guess_start_end_witness:
  "(\<exists>sg. make_signal_guess (init [1, 2, 4, 0, 0] example_slices [0, 1 / 2, 1] DEFAULT_GUESS_PARAMS)
           = Inr sg
        \<and> length sg = 1 \<and> sg ! 0 = linspace_row 1 4 3 \<and> sg ! 0 ! 0 = 1 \<and> sg ! 0 ! 2 = 4)
 \<and> (\<exists>sg. make_signal_guess (init [1, 2, 4, 0, 0] example_slices [0, 1 / 2, 1]
                              (DEFAULT_GUESS_PARAMS \<lparr> signal_gain_shape := ''exponential'' \<rparr>))
           = Inr sg
        \<and> length sg = 1 \<and> sg ! 0 = exponential_row [0, 1 / 2, 1] 1 4
        \<and> sg ! 0 ! 0 = 1 \<and> sg ! 0 ! 2 = 4)"
proof -
  let ?ip = "[1, 2, 4, 0, 0] :: real list"
  let ?zg = "[0, 1 / 2, 1] :: real list"
  let ?pe = "DEFAULT_GUESS_PARAMS \<lparr> signal_gain_shape := ''exponential'' \<rparr>"
  have i: "0 < length (get_slice (signal_slice example_slices) ?ip)"
    by (simp add: example_slices_def get_slice_def)
  have a: "fst (signal_slice example_slices) + 0 = 0" "?ip ! 0 = 1"
    "all_pump_input_power ?ip example_slices = 6"
    "length (get_slice (signal_slice example_slices) ?ip) = 1"
    "length ?zg = 3" "hd ?zg = 0" "last ?zg = 1" "?zg \<noteq> []"
    by (simp_all add: example_slices_def all_pump_input_power_def get_slice_def)
  have p: "signal_gain_shape DEFAULT_GUESS_PARAMS = ''linear''"
    "signal_conversion_guess DEFAULT_GUESS_PARAMS = 1 / 2"
    "signal_gain_shape ?pe = ''exponential''" "signal_conversion_guess ?pe = 1 / 2"
    by (simp_all add: DEFAULT_GUESS_PARAMS_def)
  have n: "(3::nat) - 1 = 2" "(2::nat) \<le> 3" "(1::real) + 1 / 2 * 6 = 4" by simp_all
  from signal_guess_start_end [OF i, of DEFAULT_GUESS_PARAMS ?zg]
  have lin: "\<exists>sg. make_signal_guess (init ?ip example_slices ?zg DEFAULT_GUESS_PARAMS) = Inr sg
        \<and> length sg = 1 \<and> sg ! 0 = linspace_row 1 4 3 \<and> sg ! 0 ! 0 = 1 \<and> sg ! 0 ! 2 = 4"
    unfolding a p n by simp
  from signal_guess_start_end [OF i, of ?pe ?zg]
  have ex: "\<exists>sg. make_signal_guess (init ?ip example_slices ?zg ?pe) = Inr sg
        \<and> length sg = 1 \<and> sg ! 0 = exponential_row ?zg 1 4 \<and> sg ! 0 ! 0 = 1 \<and> sg ! 0 ! 2 = 4"
    unfolding a p n by simp
  from lin ex show ?thesis by blast
qed

subsection \<open>Unrecognised gain shapes\<close>

text \<open>
  C2: when \<^verbatim>\<open>params['signal_gain_shape']\<close> is neither \<^verbatim>\<open>'linear'\<close> nor
  \<^verbatim>\<open>'exponential'\<close>, \<^verbatim>\<open>make_signal_guess\<close> raises the \<^verbatim>\<open>RuntimeError\<close> with its
  descriptive message, whatever the input powers, the slice map and the grid, and so does
  \<^verbatim>\<open>make_guess\<close>: no guess is returned and no other shape is used instead.
\<close>

theorem unrecognized_shape_fails:
  assumes "signal_gain_shape p \<noteq> ''linear''" and "signal_gain_shape p \<noteq> ''exponential''"
  shows "make_signal_guess (init ip sl zg p) = Inl (RuntimeError ''Unrecognized signal gain shape parameter.'')
       \<and> make_guess (init ip sl zg p) = Inl (RuntimeError ''Unrecognized signal gain shape parameter.'')"
proof -
  have p: "params (init ip sl zg p) = p"
    by (simp add: init_def)
  have sg: "make_signal_guess (init ip sl zg p) = Inl (RuntimeError ''Unrecognized signal gain shape parameter.'')"
    unfolding make_signal_guess_def Let_def p using assms by simp
  have "make_guess (init ip sl zg p) = Inl (RuntimeError ''Unrecognized signal gain shape parameter.'')"
    unfolding make_guess_def Let_def sg bind_result_def by simp
  with sg show ?thesis by simp
qed

theorem unrecognized_shape_fails_witness:
  "make_signal_guess (init [1, 2] \<lparr> signal_slice = (0, 1), co_pump_slice = (1, 2),
       counter_pump_slice = (2, 2), forward_ase_slice = (2, 2), backward_ase_slice = (2, 2),
       forward_raman_slice = (2, 2), backward_raman_slice = (2, 2) \<rparr> [0, 1]
       (DEFAULT_GUESS_PARAMS \<lparr> signal_gain_shape := ''quadratic'' \<rparr>))
     = Inl (RuntimeError ''Unrecognized signal gain shape parameter.'')
   \<and> make_guess (init [1, 2] \<lparr> signal_slice = (0, 1), co_pump_slice = (1, 2),
       counter_pump_slice = (2, 2), forward_ase_slice = (2, 2), backward_ase_slice = (2, 2),
       forward_raman_slice = (2, 2), backward_raman_slice = (2, 2) \<rparr> [0, 1]
       (DEFAULT_GUESS_PARAMS \<lparr> signal_gain_shape := ''quadratic'' \<rparr>))
     = Inl (RuntimeError ''Unrecognized signal gain shape parameter.'')"
  by (rule unrecognized_shape_fails) (simp_all add: DEFAULT_GUESS_PARAMS_def)

subsection \<open>Shape and placement of the guess\<close>

text \<open>
  C3: for every input-power vector of length \<open>n\<close>, every slice map whose category slices
  partition \<open>[0, n)\<close> and every grid of \<open>m \<ge> 2\<close> points, \<^verbatim>\<open>make_guess\<close> returns an
  array of \<open>n\<close> rows of \<open>m\<close> entries each (under a recognised gain shape; C2 covers the
  others). The rows at each category's slice are that category's guess, and row \<open>i\<close> is
  the row built from entry \<open>i\<close> of the input-power vector, so the channel order of the
  guess is the channel order of the input powers. The hypothesis \<open>n \<ge> 1\<close> of the claim
  is not needed.
\<close>

theorem make_guess_shape_and_placement:
  assumes grid: "2 \<le> length zg"
    and part: "slices_partition sl (length ip)"
    and shape: "signal_gain_shape p = ''linear'' \<or> signal_gain_shape p = ''exponential''"
  shows "\<exists>g sg. make_guess (init ip sl zg p) = Inr g
      \<and> make_signal_guess (init ip sl zg p) = Inr sg
      \<and> length g = length ip
      \<and> (\<forall>row \<in> set g. length row = length zg)
      \<and> get_slice (signal_slice sl) g = sg
      \<and> get_slice (co_pump_slice sl) g = make_co_pump_guess (init ip sl zg p)
      \<and> get_slice (counter_pump_slice sl) g = make_counter_pump_guess (init ip sl zg p)
      \<and> get_slice (forward_ase_slice sl) g = make_forward_ase_guess (init ip sl zg p)
      \<and> get_slice (backward_ase_slice sl) g = make_backward_ase_guess (init ip sl zg p)
      \<and> get_slice (forward_raman_slice sl) g = make_forward_raman_guess (init ip sl zg p)
      \<and> get_slice (backward_raman_slice sl) g = make_backward_raman_guess (init ip sl zg p)
      \<and> (\<forall>i. in_slice (signal_slice sl) i \<longrightarrow>
            (signal_gain_shape p = ''linear'' \<longrightarrow>
               g ! i = linspace_row (ip ! i)
                 (signal_conversion_guess p * all_pump_input_power ip sl + ip ! i) (length zg))
          \<and> (signal_gain_shape p = ''exponential'' \<longrightarrow>
               g ! i = exponential_row zg (ip ! i)
                 (signal_conversion_guess p * all_pump_input_power ip sl + ip ! i)))
      \<and> (\<forall>i. in_slice (co_pump_slice sl) i \<longrightarrow>
            g ! i = linspace_row (ip ! i) (pump_absorption_factor p * ip ! i) (length zg))
      \<and> (\<forall>i. in_slice (counter_pump_slice sl) i \<longrightarrow>
            g ! i = linspace_row (pump_absorption_factor p * ip ! i) (ip ! i) (length zg))
      \<and> (\<forall>i. in_slice (forward_ase_slice sl) i \<longrightarrow>
            g ! i = linspace_row (ip ! i) (ase_output_power p) (length zg))
      \<and> (\<forall>i. in_slice (backward_ase_slice sl) i \<longrightarrow>
            g ! i = linspace_row (ase_output_power p) (ip ! i) (length zg))
      \<and> (\<forall>i. in_slice (forward_raman_slice sl) i \<longrightarrow>
            g ! i = linspace_row (ip ! i) (ip ! i * 2) (length zg))
      \<and> (\<forall>i. in_slice (backward_raman_slice sl) i \<longrightarrow>
            g ! i = linspace_row (ip ! i) (ip ! i) (length zg))"
proof -
  let ?self = "init ip sl zg p"
  have zg: "zg \<noteq> []" using grid by auto
  with shape have "signal_gain_shape p = ''linear'' \<or> signal_gain_shape p = ''exponential'' \<and> zg \<noteq> []"
    by blast
  from signal_guess_returns [OF this, of ip sl]
  obtain sg where sg: "make_signal_guess ?self = Inr sg"
    and fit: "fits (length ip) (length zg) (signal_slice sl, sg)"
    by blast
  define G where "G = put_all (category_rows ?self sg) (np_zeros (length ip, length zg))"
  have mg: "make_guess ?self = Inr G" and len: "length G = length ip"
    unfolding G_def using sg fit by (rule make_guess_put_all)+
  have cols: "\<forall>row \<in> set G. length row = length zg"
    unfolding G_def using guess_cols [OF fit] by blast
  have row: "G ! i = rows ! (i - fst s) \<and> i - fst s < length (get_slice s ip) \<and> fst s + (i - fst s) = i"
    if "(s, rows) \<in> set (category_rows ?self sg)" and "in_slice s i" for s rows i
    unfolding G_def using guess_row [OF part fit that] by simp
  have s1: "get_slice (signal_slice sl) G = sg"
    unfolding G_def by (rule guess_slice [OF part fit]) (simp add: category_rows_def init_fields)
  have s2: "get_slice (co_pump_slice sl) G = make_co_pump_guess ?self"
    unfolding G_def by (rule guess_slice [OF part fit]) (simp add: category_rows_def init_fields)
  have s3: "get_slice (counter_pump_slice sl) G = make_counter_pump_guess ?self"
    unfolding G_def by (rule guess_slice [OF part fit]) (simp add: category_rows_def init_fields)
  have s4: "get_slice (forward_ase_slice sl) G = make_forward_ase_guess ?self"
    unfolding G_def by (rule guess_slice [OF part fit]) (simp add: category_rows_def init_fields)
  have s5: "get_slice (backward_ase_slice sl) G = make_backward_ase_guess ?self"
    unfolding G_def by (rule guess_slice [OF part fit]) (simp add: category_rows_def init_fields)
  have s6: "get_slice (forward_raman_slice sl) G = make_forward_raman_guess ?self"
    unfolding G_def by (rule guess_slice [OF part fit]) (simp add: category_rows_def init_fields)
  have s7: "get_slice (backward_raman_slice sl) G = make_backward_raman_guess ?self"
    unfolding G_def by (rule guess_slice [OF part fit]) (simp add: category_rows_def init_fields)
  have r1: "\<forall>i. in_slice (signal_slice sl) i \<longrightarrow>
            (signal_gain_shape p = ''linear'' \<longrightarrow>
               G ! i = linspace_row (ip ! i)
                 (signal_conversion_guess p * all_pump_input_power ip sl + ip ! i) (length zg))
          \<and> (signal_gain_shape p = ''exponential'' \<longrightarrow>
               G ! i = exponential_row zg (ip ! i)
                 (signal_conversion_guess p * all_pump_input_power ip sl + ip ! i))"
  proof (intro allI impI conjI)
    fix i assume i: "in_slice (signal_slice sl) i" and lin: "signal_gain_shape p = ''linear''"
    have "(signal_slice sl, sg) \<in> set (category_rows ?self sg)"
      by (simp add: category_rows_def init_fields)
    from row [OF this i] signal_row_linear [OF lin sg, of "i - fst (signal_slice sl)"]
    show "G ! i = linspace_row (ip ! i)
            (signal_conversion_guess p * all_pump_input_power ip sl + ip ! i) (length zg)"
      by simp
  next
    fix i assume i: "in_slice (signal_slice sl) i" and ex: "signal_gain_shape p = ''exponential''"
    have "(signal_slice sl, sg) \<in> set (category_rows ?self sg)"
      by (simp add: category_rows_def init_fields)
    from row [OF this i] signal_row_exponential [OF ex zg sg, of "i - fst (signal_slice sl)"]
    show "G ! i = exponential_row zg (ip ! i)
            (signal_conversion_guess p * all_pump_input_power ip sl + ip ! i)"
      by simp
  qed
  have r2: "\<forall>i. in_slice (co_pump_slice sl) i \<longrightarrow>
            G ! i = linspace_row (ip ! i) (pump_absorption_factor p * ip ! i) (length zg)"
  proof (intro allI impI)
    fix i assume i: "in_slice (co_pump_slice sl) i"
    have "(co_pump_slice sl, make_co_pump_guess ?self) \<in> set (category_rows ?self sg)"
      by (simp add: category_rows_def init_fields)
    from row [OF this i] co_pump_row [of "i - fst (co_pump_slice sl)" sl ip zg p]
    show "G ! i = linspace_row (ip ! i) (pump_absorption_factor p * ip ! i) (length zg)"
      by simp
  qed
  have r3: "\<forall>i. in_slice (counter_pump_slice sl) i \<longrightarrow>
            G ! i = linspace_row (pump_absorption_factor p * ip ! i) (ip ! i) (length zg)"
  proof (intro allI impI)
    fix i assume i: "in_slice (counter_pump_slice sl) i"
    have "(counter_pump_slice sl, make_counter_pump_guess ?self) \<in> set (category_rows ?self sg)"
      by (simp add: category_rows_def init_fields)
    from row [OF this i] counter_pump_row [of "i - fst (counter_pump_slice sl)" sl ip zg p]
    show "G ! i = linspace_row (pump_absorption_factor p * ip ! i) (ip ! i) (length zg)"
      by simp
  qed
  have r4: "\<forall>i. in_slice (forward_ase_slice sl) i \<longrightarrow>
            G ! i = linspace_row (ip ! i) (ase_output_power p) (length zg)"
  proof (intro allI impI)
    fix i assume i: "in_slice (forward_ase_slice sl) i"
    have "(forward_ase_slice sl, make_forward_ase_guess ?self) \<in> set (category_rows ?self sg)"
      by (simp add: category_rows_def init_fields)
    from row [OF this i] forward_ase_row [of "i - fst (forward_ase_slice sl)" sl ip zg p]
    show "G ! i = linspace_row (ip ! i) (ase_output_power p) (length zg)"
      by simp
  qed
  have r5: "\<forall>i. in_slice (backward_ase_slice sl) i \<longrightarrow>
            G ! i = linspace_row (ase_output_power p) (ip ! i) (length zg)"
  proof (intro allI impI)
    fix i assume i: "in_slice (backward_ase_slice sl) i"
    have "(backward_ase_slice sl, make_backward_ase_guess ?self) \<in> set (category_rows ?self sg)"
      by (simp add: category_rows_def init_fields)
    from row [OF this i] backward_ase_row [of "i - fst (backward_ase_slice sl)" sl ip zg p]
    show "G ! i = linspace_row (ase_output_power p) (ip ! i) (length zg)"
      by simp
  qed
  have r6: "\<forall>i. in_slice (forward_raman_slice sl) i \<longrightarrow>
            G ! i = linspace_row (ip ! i) (ip ! i * 2) (length zg)"
  proof (intro allI impI)
    fix i assume i: "in_slice (forward_raman_slice sl) i"
    have "(forward_raman_slice sl, make_forward_raman_guess ?self) \<in> set (category_rows ?self sg)"
      by (simp add: category_rows_def init_fields)
    from row [OF this i] forward_raman_row [of "i - fst (forward_raman_slice sl)" sl ip zg p]
    show "G ! i = linspace_row (ip ! i) (ip ! i * 2) (length zg)"
      by simp
  qed
  have r7: "\<forall>i. in_slice (backward_raman_slice sl) i \<longrightarrow>
            G ! i = linspace_row (ip ! i) (ip ! i) (length zg)"
  proof (intro allI impI)
    fix i assume i: "in_slice (backward_raman_slice sl) i"
    have "(backward_raman_slice sl, make_backward_raman_guess ?self) \<in> set (category_rows ?self sg)"
      by (simp add: category_rows_def init_fields)
    from row [OF this i] backward_raman_row [of "i - fst (backward_raman_slice sl)" sl ip zg p]
    show "G ! i = linspace_row (ip ! i) (ip ! i) (length zg)"
      by simp
  qed
  from mg sg len cols s1 s2 s3 s4 s5 s6 s7 r1 r2 r3 r4 r5 r6 r7 show ?thesis
    by blast
qed

theorem make_guess_shape_and_placement_witness:
  "\<exists>g. make_guess (init [1, 2, 4, 0, 0] example_slices [0, 1 / 2, 1] DEFAULT_GUESS_PARAMS) = Inr g
      \<and> length g = 5 \<and> (\<forall>row \<in> set g. length row = 3)
      \<and> get_slice (1, 2) g = [linspace_row 2 (1 / 50) 3]
      \<and> g ! 2 = linspace_row (1 / 25) 4 3"
proof -
  let ?ip = "[1, 2, 4, 0, 0] :: real list"
  let ?zg = "[0, 1 / 2, 1] :: real list"
  have h1: "2 \<le> length ?zg" by simp
  have h2: "slices_partition example_slices (length ?ip)"
    by (simp add: slices_partition_def category_slices_def example_slices_def in_slice_def upt_rec)
  have h3: "signal_gain_shape DEFAULT_GUESS_PARAMS = ''linear''
              \<or> signal_gain_shape DEFAULT_GUESS_PARAMS = ''exponential''"
    by (simp add: DEFAULT_GUESS_PARAMS_def)
  from make_guess_shape_and_placement [OF h1 h2 h3]
  obtain g where g: "make_guess (init ?ip example_slices ?zg DEFAULT_GUESS_PARAMS) = Inr g"
    and len: "length g = length ?ip"
    and cols: "\<forall>row \<in> set g. length row = length ?zg"
    and co: "get_slice (co_pump_slice example_slices) g
               = make_co_pump_guess (init ?ip example_slices ?zg DEFAULT_GUESS_PARAMS)"
    and counter: "\<forall>i. in_slice (counter_pump_slice example_slices) i \<longrightarrow>
            g ! i = linspace_row (pump_absorption_factor DEFAULT_GUESS_PARAMS * ?ip ! i) (?ip ! i)
                      (length ?zg)"
    by blast
  have "in_slice (counter_pump_slice example_slices) 2"
    by (simp add: in_slice_def example_slices_def)
  with counter have "g ! 2 = linspace_row (pump_absorption_factor DEFAULT_GUESS_PARAMS * ?ip ! 2)
                               (?ip ! 2) (length ?zg)"
    by blast
  then have r: "g ! 2 = linspace_row (1 / 25) 4 3"
    by (simp add: DEFAULT_GUESS_PARAMS_def numeral_3_eq_3)
  have c: "get_slice (1, 2) g = [linspace_row 2 (1 / 50) 3]"
    using co
    by (simp add: example_slices_def make_co_pump_guess_def linear_guess_def linspace_2d_def
        init_def get_slice_def DEFAULT_GUESS_PARAMS_def numeral_3_eq_3)
  from g len cols r c show ?thesis by (simp add: numeral_3_eq_3)
qed

subsection \<open>The exponential shape\<close>

text \<open>
  C4: for start and end vectors of one length with strictly positive entries, and a grid
  whose first point is \<open>0\<close> and whose last point \<open>z_max\<close> is positive,
  \<^verbatim>\<open>exponential_guess\<close> returns the array whose entry \<open>(i, j)\<close> is
  \<open>start\<^sub>i * exp (z\<^sub>j * ln (end\<^sub>i / start\<^sub>i) / z_max)\<close>; its first column is the start
  vector and its last column the end vector. With start \<open>1\<close> and end \<open>e\<close> on a grid over
  \<open>[0, 1]\<close> the guess is \<open>1\<close> at \<open>z = 0\<close> and \<open>e\<close> at \<open>z = 1\<close>: this is the witness.
\<close>

theorem exponential_guess_formula:
  assumes len: "length start_arr = length end_arr"
    and sp: "\<forall>x \<in> set start_arr. 0 < x" and ep: "\<forall>x \<in> set end_arr. 0 < x"
    and ne: "z self \<noteq> []" and z0: "hd (z self) = 0" and zmax: "0 < last (z self)"
  shows "\<exists>g. exponential_guess self start_arr end_arr = Inr g
      \<and> length g = length start_arr
      \<and> (\<forall>i < length start_arr.
            length (g ! i) = length (z self)
          \<and> (\<forall>j < length (z self).
                g ! i ! j = start_arr ! i
                  * exp (z self ! j * ln (end_arr ! i / start_arr ! i) / last (z self)))
          \<and> g ! i ! 0 = start_arr ! i
          \<and> g ! i ! (length (z self) - 1) = end_arr ! i)"
proof -
  define g where "g = map (\<lambda>(s, e). exponential_row (z self) s e) (zip start_arr end_arr)"
  have eg: "exponential_guess self start_arr end_arr = Inr g"
    using ne by (simp add: exponential_guess_def g_def)
  have lg: "length g = length start_arr"
    using len by (simp add: g_def)
  have rows: "g ! i = exponential_row (z self) (start_arr ! i) (end_arr ! i)"
    if "i < length start_arr" for i
    using that len by (simp add: g_def)
  have "length (g ! i) = length (z self)
          \<and> (\<forall>j < length (z self).
                g ! i ! j = start_arr ! i
                  * exp (z self ! j * ln (end_arr ! i / start_arr ! i) / last (z self)))
          \<and> g ! i ! 0 = start_arr ! i
          \<and> g ! i ! (length (z self) - 1) = end_arr ! i"
    if i: "i < length start_arr" for i
  proof -
    have s: "0 < start_arr ! i" using sp i by simp
    have e: "0 < end_arr ! i" using ep i len by simp
    have "g ! i ! 0 = start_arr ! i"
      unfolding rows [OF i] using ne z0 by (rule exponential_row_first)
    moreover have "g ! i ! (length (z self) - 1) = end_arr ! i"
      unfolding rows [OF i] using ne zmax s e by (rule exponential_row_last)
    moreover have "length (g ! i) = length (z self)"
      unfolding rows [OF i] by (rule length_exponential_row)
    moreover have "\<forall>j < length (z self).
                g ! i ! j = start_arr ! i
                  * exp (z self ! j * ln (end_arr ! i / start_arr ! i) / last (z self))"
      unfolding rows [OF i] by (simp add: nth_exponential_row)
    ultimately show ?thesis by blast
  qed
  with eg lg show ?thesis by blast
qed

theorem exponential_guess_formula_witness:
  "\<exists>g. exponential_guess (init [1] example_slices [0, 1 / 2, 1] DEFAULT_GUESS_PARAMS) [1] [exp 1] = Inr g
      \<and> length g = 1 \<and> g ! 0 ! 0 = 1 \<and> g ! 0 ! 1 = exp (1 / 2) \<and> g ! 0 ! 2 = exp 1"
  using exponential_guess_formula
          [of "[1]" "[exp 1]" "init [1] example_slices [0, 1 / 2, 1] DEFAULT_GUESS_PARAMS"]
  by (auto simp add: init_fields)

subsection \<open>Counter-propagating pumps\<close>

text \<open>
  C5: on a grid of at least two points, the row of every counter-propagating pump channel
  starts at \<^verbatim>\<open>pump_absorption_factor\<close> times the pump's input power at the first grid
  point, ends at the pump's input power at the last grid point and is linear in the grid
  index between them. It is the reversed row that \<^verbatim>\<open>make_co_pump_guess\<close> builds for a
  co-propagating pump of the same input power.
\<close>

theorem counter_pump_guess_mirrors_co_pump:
  assumes grid: "2 \<le> length (z self)" and i: "i < length (counter_pump_powers self)"
  shows "length (make_counter_pump_guess self) = length (counter_pump_powers self)
     \<and> length (make_counter_pump_guess self ! i) = length (z self)
     \<and> make_counter_pump_guess self ! i ! 0
          = pump_absorption_factor (params self) * counter_pump_powers self ! i
     \<and> make_counter_pump_guess self ! i ! (length (z self) - 1) = counter_pump_powers self ! i
     \<and> (\<forall>j < length (z self).
          make_counter_pump_guess self ! i ! j
            = pump_absorption_factor (params self) * counter_pump_powers self ! i
              + real j * (counter_pump_powers self ! i
                          - pump_absorption_factor (params self) * counter_pump_powers self ! i)
                / (real (length (z self)) - 1))
     \<and> make_counter_pump_guess self ! i
          = rev (make_co_pump_guess (self \<lparr> co_pump_powers := counter_pump_powers self \<rparr>) ! i)"
proof -
  let ?P = "counter_pump_powers self ! i"
  let ?f = "pump_absorption_factor (params self)"
  let ?m = "length (z self)"
  have len: "length (make_counter_pump_guess self) = length (counter_pump_powers self)"
    by (simp add: make_counter_pump_guess_def Let_def linear_guess_def length_linspace_2d)
  have row: "make_counter_pump_guess self ! i = linspace_row (?f * ?P) ?P ?m"
    using i by (simp add: make_counter_pump_guess_def Let_def linear_guess_def nth_linspace_2d)
  have co: "make_co_pump_guess (self \<lparr> co_pump_powers := counter_pump_powers self \<rparr>) ! i
              = linspace_row ?P (?f * ?P) ?m"
    using i by (simp add: make_co_pump_guess_def Let_def linear_guess_def nth_linspace_2d)
  have mirror: "make_counter_pump_guess self ! i
          = rev (make_co_pump_guess (self \<lparr> co_pump_powers := counter_pump_powers self \<rparr>) ! i)"
    unfolding row co using grid by (simp add: rev_linspace_row)
  have pos: "0 < ?m" using grid by linarith
  have first: "make_counter_pump_guess self ! i ! 0 = ?f * ?P"
    unfolding row using pos by (rule linspace_row_first)
  have last: "make_counter_pump_guess self ! i ! (?m - 1) = ?P"
    unfolding row using grid by (rule linspace_row_last)
  have cols: "length (make_counter_pump_guess self ! i) = ?m"
    unfolding row by (rule length_linspace_row)
  have lin: "\<forall>j < ?m. make_counter_pump_guess self ! i ! j
               = ?f * ?P + real j * (?P - ?f * ?P) / (real ?m - 1)"
    unfolding row by (simp add: nth_linspace_row)
  from len cols first last lin mirror show ?thesis by blast
qed

theorem counter_pump_guess_mirrors_co_pump_witness:
  "make_counter_pump_guess (init [1, 2, 4, 0, 0] example_slices [0, 1 / 2, 1] DEFAULT_GUESS_PARAMS) ! 0 ! 0
     = 1 / 25
 \<and> make_counter_pump_guess (init [1, 2, 4, 0, 0] example_slices [0, 1 / 2, 1] DEFAULT_GUESS_PARAMS) ! 0 ! 2
     = 4
 \<and> make_counter_pump_guess (init [1, 2, 4, 0, 0] example_slices [0, 1 / 2, 1] DEFAULT_GUESS_PARAMS) ! 0 ! 1
     = 101 / 50
 \<and> make_counter_pump_guess (init [1, 2, 4, 0, 0] example_slices [0, 1 / 2, 1] DEFAULT_GUESS_PARAMS) ! 0
     = rev (make_co_pump_guess
              ((init [1, 2, 4, 0, 0] example_slices [0, 1 / 2, 1] DEFAULT_GUESS_PARAMS)
                 \<lparr> co_pump_powers := [4] \<rparr>) ! 0)"
proof -
  let ?E = "init [1, 2, 4, 0, 0] example_slices [0, 1 / 2, 1] DEFAULT_GUESS_PARAMS"
  have a: "z ?E = [0, 1 / 2, 1]" "counter_pump_powers ?E = [4]"
    "pump_absorption_factor (params ?E) = 1 / 100"
    by (simp_all add: init_fields example_slices_def get_slice_def DEFAULT_GUESS_PARAMS_def)
  have h1: "2 \<le> length (z ?E)" and h2: "0 < length (counter_pump_powers ?E)"
    unfolding a by simp_all
  have n: "length [0, 1 / 2, 1 :: real] = 3" "(3::nat) - 1 = 2" "[4::real] ! 0 = 4" by simp_all
  from counter_pump_guess_mirrors_co_pump [OF h1 h2]
  have first: "make_counter_pump_guess ?E ! 0 ! 0 = 1 / 100 * 4"
    and last: "make_counter_pump_guess ?E ! 0 ! 2 = 4"
    and lin: "\<forall>j < 3. make_counter_pump_guess ?E ! 0 ! j
                = 1 / 100 * 4 + real j * (4 - 1 / 100 * 4) / (real 3 - 1)"
    and mirror: "make_counter_pump_guess ?E ! 0
                = rev (make_co_pump_guess (?E \<lparr> co_pump_powers := [4] \<rparr>) ! 0)"
    unfolding a n by blast+
  from lin have "make_counter_pump_guess ?E ! 0 ! 1 = 1 / 100 * 4 + real 1 * (4 - 1 / 100 * 4) / (real 3 - 1)"
    by simp
  then have mid: "make_counter_pump_guess ?E ! 0 ! 1 = 101 / 50" by simp
  from first last mid mirror show ?thesis by simp
qed

subsection \<open>Sign of the guess\<close>

text \<open>
  C6, as the code has it: under the default parameters, for non-negative input powers, any
  slice map and a grid of at least two points, \<^verbatim>\<open>make_guess\<close> returns an array whose
  entries are all non-negative. \<^verbatim>\<open>InitialGuessMaker\<close> applies no floor of its own, so
  an entry is zero where the input power it starts or ends at is zero.
\<close>

theorem default_guess_nonnegative:
  assumes nonneg: "\<forall>x \<in> set ip. 0 \<le> x" and grid: "2 \<le> length zg"
  shows "\<exists>g. make_guess (init ip sl zg DEFAULT_GUESS_PARAMS) = Inr g
            \<and> (\<forall>row \<in> set g. \<forall>x \<in> set row. 0 \<le> x)"
proof -
  let ?p = "DEFAULT_GUESS_PARAMS"
  let ?self = "init ip sl zg ?p"
  let ?m = "length zg"
  have lin: "signal_gain_shape (params ?self) = ''linear''"
    by (simp add: init_fields DEFAULT_GUESS_PARAMS_def)
  define total where "total = sum_list (co_pump_powers ?self) + sum_list (counter_pump_powers ?self)"
  define sg where "sg = linspace_2d (signal_powers ?self)
      (map (\<lambda>s. signal_conversion_guess (params ?self) * total + s) (signal_powers ?self)) ?m"
  have sgeq: "make_signal_guess ?self = Inr sg"
    unfolding sg_def total_def using signal_guess_linear [OF lin] by (simp add: init_fields)
  have fit: "fits (length ip) ?m (signal_slice sl, sg)"
    unfolding sg_def by (rule fits_linspace_2d) (simp_all add: init_fields)
  define G where "G = put_all (category_rows ?self sg) (np_zeros (length ip, ?m))"
  have mg: "make_guess ?self = Inr G"
    unfolding G_def using sgeq fit by (rule make_guess_put_all)
  have sl: "\<forall>x \<in> set (get_slice s ip). 0 \<le> x" for s
    using nonneg by (rule get_slice_nonneg)
  have total: "0 \<le> total"
    unfolding total_def by (simp add: init_fields sum_list_nonneg sl)
  have c1: "0 \<le> x" if "row \<in> set sg" and "x \<in> set row" for row x
    using that(1) unfolding sg_def
  proof (rule linspace_2d_nonneg [OF _ that(2) grid])
    show "\<forall>x \<in> set (signal_powers ?self). 0 \<le> x" by (simp add: init_fields sl)
    show "\<forall>x \<in> set (map (\<lambda>s. signal_conversion_guess (params ?self) * total + s)
                        (signal_powers ?self)). 0 \<le> x"
      using total sl [of "signal_slice sl"]
      by (auto simp add: init_fields DEFAULT_GUESS_PARAMS_def)
  qed
  have c2: "0 \<le> x" if "row \<in> set (make_co_pump_guess ?self)" and "x \<in> set row" for row x
    using that(1) unfolding make_co_pump_guess_def Let_def linear_guess_def init_fields
  proof (rule linspace_2d_nonneg [OF _ that(2) grid])
    show "\<forall>x \<in> set (get_slice (co_pump_slice sl) ip). 0 \<le> x" by (rule sl)
    show "\<forall>x \<in> set (map (\<lambda>p. pump_absorption_factor ?p * p) (get_slice (co_pump_slice sl) ip)). 0 \<le> x"
      using sl [of "co_pump_slice sl"] by (auto simp add: DEFAULT_GUESS_PARAMS_def)
  qed
  have c3: "0 \<le> x" if "row \<in> set (make_counter_pump_guess ?self)" and "x \<in> set row" for row x
    using that(1) unfolding make_counter_pump_guess_def Let_def linear_guess_def init_fields
  proof (rule linspace_2d_nonneg [OF _ that(2) grid])
    show "\<forall>x \<in> set (get_slice (counter_pump_slice sl) ip). 0 \<le> x" by (rule sl)
    show "\<forall>x \<in> set (map (\<lambda>p. pump_absorption_factor ?p * p) (get_slice (counter_pump_slice sl) ip)). 0 \<le> x"
      using sl [of "counter_pump_slice sl"] by (auto simp add: DEFAULT_GUESS_PARAMS_def)
  qed
  have c4: "0 \<le> x" if "row \<in> set (make_forward_ase_guess ?self)" and "x \<in> set row" for row x
    using that(1) unfolding make_forward_ase_guess_def Let_def linear_guess_def init_fields
  proof (rule linspace_2d_nonneg [OF _ that(2) grid])
    show "\<forall>x \<in> set (get_slice (forward_ase_slice sl) ip). 0 \<le> x" by (rule sl)
    show "\<forall>x \<in> set (np_full_like (get_slice (forward_ase_slice sl) ip) (ase_output_power ?p)). 0 \<le> x"
      by (auto simp add: np_full_like_def DEFAULT_GUESS_PARAMS_def)
  qed
  have c5: "0 \<le> x" if "row \<in> set (make_backward_ase_guess ?self)" and "x \<in> set row" for row x
    using that(1) unfolding make_backward_ase_guess_def Let_def linear_guess_def init_fields
  proof (rule linspace_2d_nonneg [OF _ that(2) grid])
    show "\<forall>x \<in> set (get_slice (backward_ase_slice sl) ip). 0 \<le> x" by (rule sl)
    show "\<forall>x \<in> set (np_full_like (get_slice (backward_ase_slice sl) ip) (ase_output_power ?p)). 0 \<le> x"
      by (auto simp add: np_full_like_def DEFAULT_GUESS_PARAMS_def)
  qed
  have c6: "0 \<le> x" if "row \<in> set (make_forward_raman_guess ?self)" and "x \<in> set row" for row x
    using that(1) unfolding make_forward_raman_guess_def Let_def linear_guess_def init_fields
  proof (rule linspace_2d_nonneg [OF _ that(2) grid])
    show "\<forall>x \<in> set (get_slice (forward_raman_slice sl) ip). 0 \<le> x" by (rule sl)
    show "\<forall>x \<in> set (map (\<lambda>p. p * 2) (get_slice (forward_raman_slice sl) ip)). 0 \<le> x"
      using sl [of "forward_raman_slice sl"] by auto
  qed
  have c7: "0 \<le> x" if "row \<in> set (make_backward_raman_guess ?self)" and "x \<in> set row" for row x
    using that(1) unfolding make_backward_raman_guess_def Let_def linear_guess_def init_fields
  proof (rule linspace_2d_nonneg [OF _ that(2) grid])
    show "\<forall>x \<in> set (get_slice (backward_raman_slice sl) ip). 0 \<le> x" by (rule sl)
    show "\<forall>x \<in> set (get_slice (backward_raman_slice sl) ip). 0 \<le> x" by (rule sl)
  qed
  have "0 \<le> x" if row: "row \<in> set G" and x: "x \<in> set row" for row x
  proof -
    from row set_put_all [of "category_rows ?self sg" "np_zeros (length ip, ?m)"]
    consider "row \<in> set (np_zeros (length ip, ?m))"
      | sr where "sr \<in> set (category_rows ?self sg)" and "row \<in> set (snd sr)"
      unfolding G_def by auto
    then show ?thesis
    proof cases
      case 1
      then have "x = 0" using x by (rule np_zeros_entries)
      then show ?thesis by simp
    next
      case 2
      then show ?thesis
        using x c1 c2 c3 c4 c5 c6 c7 by (auto simp add: category_rows_def)
    qed
  qed
  with mg show ?thesis by blast
qed

theorem default_guess_nonnegative_witness:
  "\<exists>g. make_guess (init [1, 2, 4, 0, 0] example_slices [0, 1 / 2, 1] DEFAULT_GUESS_PARAMS) = Inr g
      \<and> (\<forall>row \<in> set g. \<forall>x \<in> set row. 0 \<le> x)"
  using default_guess_nonnegative [of "[1, 2, 4, 0, 0]" "[0, 1 / 2, 1]" example_slices]
  by simp

text \<open>
  C6 as stated fails: with a signal of 1 W, pumps of 2 W and 4 W and two ASE channels of
  zero input power, all non-negative, the guess of the forward ASE channel starts at \<open>0\<close>
  and the guess of the backward ASE channel ends at \<open>0\<close>. No strictly positive floor
  bounds these entries from below.
\<close>

theorem guess_floor_counterexample:
  "make_guess (init [1, 2, 4, 0, 0] example_slices [0, 1 / 2, 1] DEFAULT_GUESS_PARAMS)
     = Inr [[1, 5 / 2, 4], [2, 101 / 100, 1 / 50], [1 / 25, 101 / 50, 4],
            [0, 1 / 2000, 1 / 1000], [1 / 1000, 1 / 2000, 0]]"
  by (simp add: make_guess_def make_signal_guess_def make_co_pump_guess_def
      make_counter_pump_guess_def make_forward_ase_guess_def make_backward_ase_guess_def
      make_forward_raman_guess_def make_backward_raman_guess_def linear_guess_def
      linspace_2d_def linspace_row_def np_full_like_def np_zeros_def guess_shape_def
      set_slice_def get_slice_def bind_result_def init_def example_slices_def
      DEFAULT_GUESS_PARAMS_def Let_def upt_rec)

section \<open>Properties of \<^verbatim>\<open>ActiveFiber\<close>\<close>

subsection \<open>Mode field diameter\<close>

text \<open>
  C7: for every frequency \<open>f\<close> and preset mode field diameter \<open>d\<close>, \<^verbatim>\<open>get_mfd\<close>
  returns \<open>d\<close> when \<open>d > 0\<close>. Otherwise it returns the Petermann II mode field diameter
  of the fundamental mode at the wavelength of \<open>f\<close>, computed from the core radius and
  the numerical aperture of the fibre and from no other attribute of it.
\<close>

theorem get_mfd_preset_or_petermann:
  "(0 < d \<longrightarrow> get_mfd h self freq d = d)
 \<and> (\<not> 0 < d \<longrightarrow> get_mfd h self freq d =
        fundamental_mode_mfd_petermann_2 h (freq_to_wl h freq) (core_r self) (core_na self))
 \<and> (\<not> 0 < d \<and> core_r self' = core_r self \<and> core_na self' = core_na self
      \<longrightarrow> get_mfd h self' freq d = get_mfd h self freq d)"
  by (simp add: get_mfd_def)

theorem get_mfd_preset_or_petermann_witness:
  "get_mfd example_helpers example_fiber 299792458 7 = 7
 \<and> get_mfd example_helpers example_fiber 299792458 0 = 40
 \<and> get_mfd example_helpers (example_fiber \<lparr> tau := 9 \<rparr>) 299792458 0
      = get_mfd example_helpers example_fiber 299792458 0"
  using get_mfd_preset_or_petermann [of 7 example_helpers example_fiber 299792458 "example_fiber \<lparr> tau := 9 \<rparr>"]
        get_mfd_preset_or_petermann [of 0 example_helpers example_fiber 299792458 "example_fiber \<lparr> tau := 9 \<rparr>"]
  by (simp add: example_helpers_def example_fiber_def)

subsection \<open>Nonlinear effective area\<close>

text \<open>
  C8: for every frequency, when \<^verbatim>\<open>effective_area_type\<close> is \<^verbatim>\<open>'bessel'\<close>,
  \<^verbatim>\<open>nonlinear_effective_area\<close> raises \<^verbatim>\<open>NotImplementedError\<close>; it returns no value.
\<close>

theorem bessel_not_implemented:
  assumes "effective_area_type self = ''bessel''"
  shows "nonlinear_effective_area h self freq = Inl NotImplementedError"
  using assms
  by (simp add: nonlinear_effective_area_def effective_area_from_bessel_distribution_def bind_result_def)

theorem bessel_not_implemented_witness:
  "nonlinear_effective_area example_helpers (example_fiber \<lparr> effective_area_type := ''bessel'' \<rparr>) 299792458
     = Inl NotImplementedError"
  by (rule bessel_not_implemented) simp

text \<open>
  C9: for every frequency and every \<^verbatim>\<open>effective_area_type\<close> other than
  \<^verbatim>\<open>'core_area'\<close>, \<^verbatim>\<open>'gaussian'\<close> and \<^verbatim>\<open>'bessel'\<close>,
  \<^verbatim>\<open>nonlinear_effective_area\<close> falls through its dispatch and returns \<^verbatim>\<open>None\<close>; it
  raises nothing.
\<close>

theorem unknown_area_type_returns_None:
  assumes "effective_area_type self \<notin> {''core_area'', ''gaussian'', ''bessel''}"
  shows "nonlinear_effective_area h self freq = Inr None"
  using assms by (simp add: nonlinear_effective_area_def)

theorem unknown_area_type_returns_None_witness:
  "nonlinear_effective_area example_helpers (example_fiber \<lparr> effective_area_type := ''step_index'' \<rparr>) 299792458
     = Inr None"
  by (rule unknown_area_type_returns_None) simp

subsection \<open>Finite-bandwidth gain and absorption\<close>

text \<open>
  C10: for every centre frequency \<open>f\<close>, bandwidth \<open>B\<close> and mode field radius \<open>r\<close>,
  \<^verbatim>\<open>finite_bandwidth_gain\<close> is the arithmetic mean of \<^verbatim>\<open>get_channel_gain\<close> at the
  band edges \<open>f - B/2\<close> and \<open>f + B/2\<close>, and fails where one of the two calls fails;
  \<^verbatim>\<open>finite_bandwidth_absorption\<close> is the same mean of \<^verbatim>\<open>get_channel_absorption\<close>.
  Only the edge values enter: replacing the cross-section interpolant by any other that
  agrees with it at the two edges leaves the result unchanged, so there is no integral
  over the band.
\<close>

theorem finite_bandwidth_is_edge_mean:
  "finite_bandwidth_gain h self f B r =
     (case (get_channel_gain h self (f - B / 2) r, get_channel_gain h self (f + B / 2) r) of
        (Inr a, Inr b) \<Rightarrow> Inr ((a + b) / 2)
      | (Inr a, Inl e) \<Rightarrow> Inl e
      | (Inl e, _) \<Rightarrow> Inl e)
 \<and> finite_bandwidth_absorption h self f B r =
     (case (get_channel_absorption h self (f - B / 2) r, get_channel_absorption h self (f + B / 2) r) of
        (Inr a, Inr b) \<Rightarrow> Inr ((a + b) / 2)
      | (Inr a, Inl e) \<Rightarrow> Inl e
      | (Inl e, _) \<Rightarrow> Inl e)
 \<and> (\<forall>ov. make_single_overlap h self r = Some ov \<longrightarrow>
        finite_bandwidth_gain h self f B r =
          Inr ((gain_cs_interp self (f - B / 2) * ov * ion_number_density self
              + gain_cs_interp self (f + B / 2) * ov * ion_number_density self) / 2)
      \<and> finite_bandwidth_absorption h self f B r =
          Inr ((absorption_cs_interp self (f - B / 2) * ov * ion_number_density self
              + absorption_cs_interp self (f + B / 2) * ov * ion_number_density self) / 2))
 \<and> (gain' (f - B / 2) = gain_cs_interp self (f - B / 2) \<and> gain' (f + B / 2) = gain_cs_interp self (f + B / 2)
      \<longrightarrow> finite_bandwidth_gain h (self \<lparr> gain_cs_interp := gain' \<rparr>) f B r = finite_bandwidth_gain h self f B r)
 \<and> (abs' (f - B / 2) = absorption_cs_interp self (f - B / 2) \<and> abs' (f + B / 2) = absorption_cs_interp self (f + B / 2)
      \<longrightarrow> finite_bandwidth_absorption h (self \<lparr> absorption_cs_interp := abs' \<rparr>) f B r
            = finite_bandwidth_absorption h self f B r)"
  by (simp add: finite_bandwidth_gain_def finite_bandwidth_absorption_def get_channel_gain_def
      get_channel_absorption_def make_single_overlap_def overlap_is_constant_def
      bind_result_def np_mean2_def Let_def split: sum.splits option.splits)

theorem finite_bandwidth_is_edge_mean_witness:
  "make_single_overlap example_helpers example_fiber 2 = Some (1 / 2)
 \<and> finite_bandwidth_gain example_helpers example_fiber 10 4 2 = Inr (25 / 4)
 \<and> finite_bandwidth_absorption example_helpers example_fiber 10 4 2 = Inr 10
 \<and> finite_bandwidth_gain example_helpers
      (example_fiber \<lparr> gain_cs_interp := (\<lambda>f. if f = 8 then 1 else if f = 12 then 4 else 1000) \<rparr>)
      10 4 2 = Inr (25 / 4)
 \<and> finite_bandwidth_absorption example_helpers
      (example_fiber \<lparr> absorption_cs_interp := (\<lambda>f. if f = 8 then 2 else if f = 12 then 6 else 1000) \<rparr>)
      10 4 2 = Inr 10"
proof -
  let ?g = "\<lambda>f::real. if f = 8 then 1 else if f = 12 then 4 else (1000::real)"
  let ?a = "\<lambda>f::real. if f = 8 then 2 else if f = 12 then 6 else (1000::real)"
  have ov: "make_single_overlap example_helpers example_fiber 2 = Some (1 / 2)"
    by (simp add: make_single_overlap_def overlap_is_constant_def example_helpers_def
        example_fiber_def)
  have v: "gain_cs_interp example_fiber (10 - 4 / 2) = 1" "gain_cs_interp example_fiber (10 + 4 / 2) = 4"
    "absorption_cs_interp example_fiber (10 - 4 / 2) = 2"
    "absorption_cs_interp example_fiber (10 + 4 / 2) = 6"
    "ion_number_density example_fiber = 5"
    by (simp_all add: example_fiber_def)
  have e: "?g (10 - 4 / 2) = gain_cs_interp example_fiber (10 - 4 / 2)
             \<and> ?g (10 + 4 / 2) = gain_cs_interp example_fiber (10 + 4 / 2)"
    "?a (10 - 4 / 2) = absorption_cs_interp example_fiber (10 - 4 / 2)
             \<and> ?a (10 + 4 / 2) = absorption_cs_interp example_fiber (10 + 4 / 2)"
    unfolding v by simp_all
  note t = finite_bandwidth_is_edge_mean [of example_helpers example_fiber 10 4 2 ?g ?a]
  from t have "\<forall>ov. make_single_overlap example_helpers example_fiber 2 = Some ov \<longrightarrow>
        finite_bandwidth_gain example_helpers example_fiber 10 4 2 =
          Inr ((gain_cs_interp example_fiber (10 - 4 / 2) * ov * ion_number_density example_fiber
              + gain_cs_interp example_fiber (10 + 4 / 2) * ov * ion_number_density example_fiber) / 2)
      \<and> finite_bandwidth_absorption example_helpers example_fiber 10 4 2 =
          Inr ((absorption_cs_interp example_fiber (10 - 4 / 2) * ov * ion_number_density example_fiber
              + absorption_cs_interp example_fiber (10 + 4 / 2) * ov * ion_number_density example_fiber) / 2)"
    by blast
  with ov have "finite_bandwidth_gain example_helpers example_fiber 10 4 2 =
          Inr ((gain_cs_interp example_fiber (10 - 4 / 2) * (1 / 2) * ion_number_density example_fiber
              + gain_cs_interp example_fiber (10 + 4 / 2) * (1 / 2) * ion_number_density example_fiber) / 2)"
    and "finite_bandwidth_absorption example_helpers example_fiber 10 4 2 =
          Inr ((absorption_cs_interp example_fiber (10 - 4 / 2) * (1 / 2) * ion_number_density example_fiber
              + absorption_cs_interp example_fiber (10 + 4 / 2) * (1 / 2) * ion_number_density example_fiber) / 2)"
    by blast+
  then have g: "finite_bandwidth_gain example_helpers example_fiber 10 4 2 = Inr (25 / 4)"
    and a: "finite_bandwidth_absorption example_helpers example_fiber 10 4 2 = Inr 10"
    unfolding v by simp_all
  from t e have "finite_bandwidth_gain example_helpers (example_fiber \<lparr> gain_cs_interp := ?g \<rparr>) 10 4 2
                   = finite_bandwidth_gain example_helpers example_fiber 10 4 2"
    and "finite_bandwidth_absorption example_helpers (example_fiber \<lparr> absorption_cs_interp := ?a \<rparr>) 10 4 2
                   = finite_bandwidth_absorption example_helpers example_fiber 10 4 2"
    by blast+
  with ov g a show ?thesis by simp
qed

end
